theory Spec2Isabelle
  imports Complex_Main "HOL-Library.Word"
begin

section \<open>The 2D convolution effect of glmark2 (scene-effect-2d.cpp)\<close>

text \<open>
  The development embeds the four static functions of \<^verbatim>\<open>scene-effect-2d.cpp\<close>:
  \<^verbatim>\<open>split\<close> and \<^verbatim>\<open>parse_matrix\<close> (the matrix parser), \<^verbatim>\<open>normalize\<close>,
  \<^verbatim>\<open>calc_offset\<close> and \<^verbatim>\<open>create_convolution_fragment_shader\<close>.

  \<^item> \<^verbatim>\<open>unsigned int\<close> is a 32-bit word; \<^verbatim>\<open>size_t\<close> values (\<^verbatim>\<open>size()\<close> of a vector) are
    natural numbers, and the conversions between the two are written out where the
    source converts.
  \<^item> \<^verbatim>\<open>float\<close> and \<^verbatim>\<open>double\<close> are type parameters \<open>'f\<close> and \<open>'d\<close>. What C++ and its
    standard library do on them (arithmetic, comparison, conversion, reading and
    printing) is a parameter of every function, the record \<open>cxx_float\<close>, so that a
    theorem stated for every such record holds whatever the rounding is.
  \<^item> Out-parameters and the error log are passed explicitly: a function returns the
    new values of what it may write together with the list of \<^verbatim>\<open>Log::error\<close> calls.
    \<^verbatim>\<open>Log::debug\<close> calls are left out.
\<close>

subsection \<open>Machine integers and the floating-point interface\<close>

type_synonym uint = "32 word"

definition UINT_MAX :: uint where
  "UINT_MAX = 4294967295"

record ('f, 'd) cxx_float =
  read_float :: "string \<Rightarrow> 'f"
  show_fixed :: "nat \<Rightarrow> 'f \<Rightarrow> string"
  from_int :: "int \<Rightarrow> 'f"
  to_double :: "'f \<Rightarrow> 'd"
  to_float :: "'d \<Rightarrow> 'f"
  d_zero :: "'d"
  d_epsilon :: "'d"
  d_add :: "'d \<Rightarrow> 'd \<Rightarrow> 'd"
  d_fabs :: "'d \<Rightarrow> 'd"
  d_less :: "'d \<Rightarrow> 'd \<Rightarrow> bool"
  d_eq :: "'d \<Rightarrow> 'd \<Rightarrow> bool"
  f_add :: "'f \<Rightarrow> 'f \<Rightarrow> 'f"
  f_div :: "'f \<Rightarrow> 'f \<Rightarrow> 'f"

text \<open>
  The fields, with the C++ they stand for:
  \<^item> \<open>read_float s\<close>: \<^verbatim>\<open>std::stringstream ss(s); float f; ss >> f;\<close>
  \<^item> \<open>show_fixed p v\<close>: what \<^verbatim>\<open><< v\<close> writes on a stream set to \<^verbatim>\<open>std::fixed\<close> with
    precision \<open>p\<close>
  \<^item> \<open>from_int\<close>: \<^verbatim>\<open>static_cast<float>\<close> of an \<^verbatim>\<open>int\<close>
  \<^item> \<open>to_double\<close>, \<open>to_float\<close>: the implicit conversions between \<^verbatim>\<open>float\<close> and \<^verbatim>\<open>double\<close>
  \<^item> \<open>d_zero\<close>, \<open>d_epsilon\<close>: the literals \<^verbatim>\<open>0.0\<close> and \<^verbatim>\<open>0.00000001\<close>
  \<^item> \<open>d_add\<close>, \<open>d_fabs\<close>, \<open>d_less\<close>, \<open>d_eq\<close>: \<^verbatim>\<open>+\<close>, \<^verbatim>\<open>fabs\<close>, \<^verbatim>\<open><\<close> and \<^verbatim>\<open>==\<close> on \<^verbatim>\<open>double\<close>
  \<^item> \<open>f_add\<close>, \<open>f_div\<close>: \<^verbatim>\<open>+\<close> and \<^verbatim>\<open>/\<close> on \<^verbatim>\<open>float\<close>
\<close>

datatype log_error =
  MatrixRowMismatch nat nat uint
  | FilterSizeMismatch

text \<open>
  \<open>MatrixRowMismatch r n w\<close> is the call
  \<^verbatim>\<open>Log::error("Matrix row %u contains %u elements, whereas previous rows had %u\n", r, n, w)\<close>
  and \<open>FilterSizeMismatch\<close> is
  \<^verbatim>\<open>Log::error("Convolution filter size doesn't match supplied dimensions\n")\<close>.
\<close>

subsection \<open>split\<close>

text \<open>
  \<^verbatim>\<open>std::getline(ss, item, delim)\<close> on the rest \<open>ss\<close> of a stream: it fails when nothing
  is left; otherwise the item is what stands before the first delimiter, and the
  delimiter (when there is one) is consumed.
\<close>

fun getline :: "string \<Rightarrow> char \<Rightarrow> (string \<times> string) option" where
  "getline [] delim = None"
| "getline (c # cs) delim =
     Some (takeWhile (\<lambda>x. x \<noteq> delim) (c # cs),
           drop 1 (dropWhile (\<lambda>x. x \<noteq> delim) (c # cs)))"

lemma getline_shorter: "getline ss delim = Some (item, ss') \<Longrightarrow> length ss' < length ss"
proof (cases ss)
  case Nil
  assume "getline ss delim = Some (item, ss')"
  with Nil show ?thesis by simp
next
  case (Cons c cs)
  assume "getline ss delim = Some (item, ss')"
  with Cons have "ss' = drop 1 (dropWhile (\<lambda>x. x \<noteq> delim) ss)" by simp
  moreover have "length (dropWhile (\<lambda>x. x \<noteq> delim) ss) \<le> length ss"
    by (rule length_dropWhile_le)
  ultimately show ?thesis using Cons by simp
qed

function split :: "string \<Rightarrow> char \<Rightarrow> string list \<Rightarrow> string list" where
  "split ss delim elems =
     (case getline ss delim of
        None \<Rightarrow> elems
      | Some (item, ss') \<Rightarrow> split ss' delim (elems @ [item]))"
  by pat_completeness auto
termination
  by (relation "measure (\<lambda>(ss, delim, elems). length ss)") (auto dest: getline_shorter)

declare split.simps [simp del]

subsection \<open>parse\_matrix\<close>

text \<open>
  The loop over the rows, from the row at index \<open>r\<close> on. Its state is the local \<open>w\<close>
  and the caller's vector \<open>filt\<close> (the parameter \<^verbatim>\<open>filter\<close>); it returns whether it ran
  to the end, the state it stopped in and what it logged. The inner loop pushes the
  elements of one row.
\<close>

fun parse_rows ::
  "('f, 'd) cxx_float \<Rightarrow> string list \<Rightarrow> nat \<Rightarrow> uint \<Rightarrow> 'f list
    \<Rightarrow> bool \<times> uint \<times> 'f list \<times> log_error list" where
  "parse_rows fp [] r w filt = (True, w, filt, [])"
| "parse_rows fp (row # rows) r w filt =
     (let elems = split row (CHR '','') [] in
      if w \<noteq> UINT_MAX \<and> length elems \<noteq> unat w
      then (False, w, filt, [MatrixRowMismatch r (length elems) w])
      else parse_rows fp rows (Suc r) (of_nat (length elems))
             (foldl (\<lambda>filt el. filt @ [read_float fp el]) filt elems))"

text \<open>
  \<open>parse_matrix fp str filt width height\<close> returns the function's result, the vector
  and the two out-parameters as the call leaves them, and the log.
\<close>

definition parse_matrix ::
  "('f, 'd) cxx_float \<Rightarrow> string \<Rightarrow> 'f list \<Rightarrow> uint \<Rightarrow> uint
    \<Rightarrow> bool \<times> 'f list \<times> uint \<times> uint \<times> log_error list" where
  "parse_matrix fp str filt width height =
     (let rows = split str (CHR '';'') [] in
      case parse_rows fp rows 0 UINT_MAX filt of
        (ok, w, filt', errs) \<Rightarrow>
          if ok then (True, filt', w, of_nat (length rows), errs)
          else (False, filt', width, height, errs))"

subsection \<open>normalize\<close>

text \<open>
  \<^verbatim>\<open>std::accumulate\<close> starts from the \<^verbatim>\<open>double\<close> literal \<^verbatim>\<open>0.0\<close>, so it adds in \<^verbatim>\<open>double\<close>
  and the result is converted when it is stored in \<^verbatim>\<open>float sum\<close>. The comparisons
  with the \<^verbatim>\<open>double\<close> literals promote their \<^verbatim>\<open>float\<close> operand. The function returns
  the vector as the call leaves it.
\<close>

definition normalize_filter :: "('f, 'd) cxx_float \<Rightarrow> 'f list \<Rightarrow> 'f list" where
  "normalize_filter fp filt =
     (let sum = to_float fp (foldl (\<lambda>acc w. d_add fp acc (to_double fp w)) (d_zero fp) filt);
          sum = (if d_less fp (d_fabs fp (to_double fp sum)) (d_epsilon fp)
                 then foldl (\<lambda>sum w. if d_less fp (d_zero fp) (to_double fp w)
                                       then f_add fp sum w else sum)
                        (to_float fp (d_zero fp)) filt
                 else sum)
      in if d_eq fp (to_double fp sum) (d_zero fp) then filt
         else map (\<lambda>w. f_div fp w sum) filt)"

subsection \<open>calc\_offset\<close>

text \<open>
  The two subtractions and the negation are done in \<^verbatim>\<open>unsigned int\<close> and wrap around;
  the initialisation of an \<^verbatim>\<open>int\<close> reads the result as two's complement. A division by
  zero (\<open>width = 0\<close>) has no result: \<open>None\<close>.
\<close>

definition calc_offset ::
  "('f, 'd) cxx_float \<Rightarrow> uint \<Rightarrow> uint \<Rightarrow> uint \<Rightarrow> ('f \<times> 'f) option" where
  "calc_offset fp i width height =
     (if width = 0 then None
      else let x = sint (i mod width - (width - 1) div 2);
               y = sint (- (i div width - (height - 1) div 2))
           in Some (from_int fp x, from_int fp y))"

subsection \<open>ShaderSource\<close>

text \<open>\<^verbatim>\<open>std::endl\<close> on a string stream writes a line feed.\<close>

definition endl :: string where
  "endl = [CHR 0x0A]"

text \<open>
  The class \<^verbatim>\<open>ShaderSource\<close> (\<^verbatim>\<open>shader-source.h\<close>) and the template file
  \<^verbatim>\<open>effect-2d-convolution.frag\<close> are not among the sources. The spec describes the
  template as text with a placeholder token, which supports adding constant
  declarations before the placeholder and replacing the token. A \<^verbatim>\<open>ShaderSource\<close> is
  modelled by its text, and the content of the template file is the parameter \<open>tmpl\<close>
  of the synthesis.
\<close>

text \<open>
  Modelled from the spec: \<^verbatim>\<open>ShaderSource::add\<close>, which is missing, adds declarations to
  the text before the placeholder; here, in front of the text.
\<close>

definition source_add :: "string \<Rightarrow> string \<Rightarrow> string" where
  "source_add str source = str @ source"

text \<open>
  Modelled from the spec: \<^verbatim>\<open>ShaderSource::add_const\<close>, which is missing, defines a named
  constant in the template: it adds the declaration of the constant, its value in
  fixed notation.
\<close>

definition source_add_const ::
  "('f, 'd) cxx_float \<Rightarrow> string \<Rightarrow> 'f \<Rightarrow> string \<Rightarrow> string" where
  "source_add_const fp name f source =
     source_add (''const float '' @ name @ '' = '' @ show_fixed fp 6 f @ '';'' @ endl) source"

text \<open>
  Modelled from the spec: \<^verbatim>\<open>ShaderSource::replace\<close>, which is missing, replaces the
  placeholder token by the generated text; here, every occurrence from left to right.
\<close>

function source_replace :: "string \<Rightarrow> string \<Rightarrow> string \<Rightarrow> string" where
  "source_replace remove ins [] = []"
| "source_replace remove ins (c # cs) =
     (if remove \<noteq> [] \<and> take (length remove) (c # cs) = remove
      then ins @ source_replace remove ins (drop (length remove) (c # cs))
      else c # source_replace remove ins cs)"
  by pat_completeness auto
termination
  by (relation "measure (\<lambda>(remove, ins, source). length source)") auto

text \<open>Modelled from the spec: \<^verbatim>\<open>ShaderSource::str\<close>, which is missing, returns the text.\<close>

definition source_str :: "string \<Rightarrow> string" where
  "source_str source = source"

subsection \<open>create\_convolution\_fragment\_shader\<close>

text \<open>\<^verbatim>\<open><< i\<close> for an \<^verbatim>\<open>unsigned int\<close>: its decimal digits.\<close>

fun show_nat :: "nat \<Rightarrow> string" where
  "show_nat n =
     (if n < 10 then [''0123456789'' ! n]
      else show_nat (n div 10) @ [''0123456789'' ! (n mod 10)])"

declare show_nat.simps [simp del]

text \<open>
  The loop over the coefficients, from position \<open>pos\<close> on, with the two string streams
  as its state. \<open>ss_def\<close> prints with the default precision 6, \<open>ss_convolution\<close> with
  precision 1, both in fixed notation. The index \<open>i\<close> is the iterator difference stored
  in an \<^verbatim>\<open>unsigned int\<close>.
\<close>

fun convolution_loop ::
  "('f, 'd) cxx_float \<Rightarrow> 'f list \<Rightarrow> nat \<Rightarrow> uint \<Rightarrow> uint \<Rightarrow> string \<Rightarrow> string
    \<Rightarrow> (string \<times> string) option" where
  "convolution_loop fp [] pos width height ss_def ss_convolution =
     Some (ss_def, ss_convolution)"
| "convolution_loop fp (coeff # rest) pos width height ss_def ss_convolution =
     (let i = (of_nat pos :: uint);
          ss_def = ss_def @ ''const float Filter'' @ show_nat (unat i) @ '' = ''
                     @ show_fixed fp 6 coeff @ '';'' @ endl
      in case calc_offset fp i width height of
           None \<Rightarrow> None
         | Some (offset_x, offset_y) \<Rightarrow>
             let ss_convolution = ss_convolution
                    @ ''texture2D(Texture0, TextureCoord + vec2(''
                    @ show_fixed fp 1 offset_x @ '' * TextureStepX, ''
                    @ show_fixed fp 1 offset_y @ '' * TextureStepY)) * Filter''
                    @ show_nat (unat i);
                 ss_convolution = (if rest \<noteq> [] then ss_convolution @ '' +'' @ endl
                                   else ss_convolution)
             in convolution_loop fp rest (Suc pos) width height ss_def ss_convolution)"

text \<open>
  The result is \<open>None\<close> when the call has no result (a division by zero in
  \<open>calc_offset\<close>), and otherwise the returned string with the log. The product
  \<open>width * height\<close> is an \<^verbatim>\<open>unsigned int\<close> and wraps around before it is compared with
  the \<^verbatim>\<open>size_t\<close>. The constants \<^verbatim>\<open>1.0f/800.0f\<close> and \<^verbatim>\<open>1.0f/600.0f\<close> are \<^verbatim>\<open>float\<close> quotients.
\<close>

definition create_convolution_fragment_shader ::
  "('f, 'd) cxx_float \<Rightarrow> string \<Rightarrow> 'f list \<Rightarrow> uint \<Rightarrow> uint
    \<Rightarrow> (string \<times> log_error list) option" where
  "create_convolution_fragment_shader fp tmpl array width height =
     (let source = tmpl in
      if unat (width * height) \<noteq> length array then Some ('''', [FilterSizeMismatch])
      else
        let source = source_add_const fp ''TextureStepX''
                       (f_div fp (from_int fp 1) (from_int fp 800)) source;
            source = source_add_const fp ''TextureStepY''
                       (f_div fp (from_int fp 1) (from_int fp 600)) source
        in case convolution_loop fp array 0 width height [] ''result = '' of
             None \<Rightarrow> None
           | Some (ss_def, ss_convolution) \<Rightarrow>
               let ss_convolution = ss_convolution @ '';'' @ endl;
                   source = source_add ss_def source;
                   source = source_replace ''$CONVOLUTION$'' ss_convolution source
               in Some (source_str source, []))"

section \<open>Definitions for the statements\<close>

subsection \<open>Exact arithmetic as an instance of the floating-point interface\<close>

text \<open>
  The instance \<open>exact\<close> takes both \<^verbatim>\<open>float\<close> and \<^verbatim>\<open>double\<close> to be the real numbers, with
  exact arithmetic. It is what the machine computes wherever no operation rounds, as
  on the small integers and halves of the examples below. \<open>read_decimal\<close> reads a
  token of the form \<^verbatim>\<open>[-]digits[.digits]\<close> (and \<open>0\<close> where no number starts the token);
  \<open>fixed_decimal\<close> prints the value rounded to \<open>p\<close> decimals, ties to even.
\<close>

definition digit_value :: "char \<Rightarrow> nat option" where
  "digit_value c =
     map_of [(CHR ''0'', 0), (CHR ''1'', 1), (CHR ''2'', 2), (CHR ''3'', 3), (CHR ''4'', 4),
             (CHR ''5'', 5), (CHR ''6'', 6), (CHR ''7'', 7), (CHR ''8'', 8), (CHR ''9'', 9)] c"

definition digits_value :: "string \<Rightarrow> nat" where
  "digits_value ds = foldl (\<lambda>a c. 10 * a + the (digit_value c)) 0 ds"

definition read_decimal :: "string \<Rightarrow> real" where
  "read_decimal s =
     (let neg = (take 1 s = ''-'');
          s1 = (if neg then drop 1 s else s);
          ip = takeWhile (\<lambda>c. digit_value c \<noteq> None) s1;
          rest = dropWhile (\<lambda>c. digit_value c \<noteq> None) s1;
          fr = (if take 1 rest = ''.''
                then takeWhile (\<lambda>c. digit_value c \<noteq> None) (drop 1 rest) else [])
      in if ip = [] \<and> fr = [] then 0
         else (if neg then - 1 else 1)
              * (of_nat (digits_value ip) + of_nat (digits_value fr) / 10 ^ length fr))"

definition round_half_even :: "real \<Rightarrow> int" where
  "round_half_even x =
     (let f = \<lfloor>x\<rfloor>; d = x - of_int f
      in if d < 1 / 2 then f else if 1 / 2 < d then f + 1 else if even f then f else f + 1)"

definition fixed_decimal :: "nat \<Rightarrow> real \<Rightarrow> string" where
  "fixed_decimal p v =
     (let ds = show_nat (nat (round_half_even (\<bar>v\<bar> * 10 ^ p)));
          ds = replicate (Suc p - length ds) (CHR ''0'') @ ds
      in (if v < 0 then ''-'' else '''') @ take (length ds - p) ds
           @ (if p = 0 then '''' else ''.'' @ drop (length ds - p) ds))"

definition exact :: "(real, real) cxx_float" where
  "exact = \<lparr> read_float = read_decimal, show_fixed = fixed_decimal, from_int = of_int,
             to_double = (\<lambda>x. x), to_float = (\<lambda>x. x), d_zero = 0,
             d_epsilon = 1 / 100000000, d_add = (+), d_fabs = abs, d_less = (<),
             d_eq = (=), f_add = (+), f_div = (/) \<rparr>"

subsection \<open>An arithmetic with overflow\<close>













subsection \<open>Matrix strings\<close>

text \<open>
  \<open>join sep ts\<close> writes the strings \<open>ts\<close> with \<open>sep\<close> between neighbours. The string of a
  matrix of tokens has \<^verbatim>\<open>,\<close> between the elements of a row and \<^verbatim>\<open>;\<close> between the rows.
  A matrix is well formed when it has a row, its rows have the same positive number
  \<open>n\<close> of tokens, and no token is empty or contains a delimiter.
\<close>

fun join :: "string \<Rightarrow> string list \<Rightarrow> string" where
  "join sep [] = []"
| "join sep [t] = t"
| "join sep (t # u # ts) = t @ sep @ join sep (u # ts)"

definition matrix_string :: "string list list \<Rightarrow> string" where
  "matrix_string rows = join '';'' (map (join '','') rows)"

definition token_ok :: "string \<Rightarrow> bool" where
  "token_ok t \<longleftrightarrow> t \<noteq> [] \<and> CHR '','' \<notin> set t \<and> CHR '';'' \<notin> set t"

definition well_formed :: "string list list \<Rightarrow> nat \<Rightarrow> bool" where
  "well_formed rows n \<longleftrightarrow>
     rows \<noteq> [] \<and> 0 < n \<and> (\<forall>row \<in> set rows. length row = n \<and> (\<forall>t \<in> set row. token_ok t))"

text \<open>
  The element counts of the rows of any string, as \<^verbatim>\<open>split\<close> finds them, and the
  elements of its first \<open>k\<close> rows.
\<close>

definition row_counts :: "string \<Rightarrow> nat list" where
  "row_counts str = map (\<lambda>row. length (split row (CHR '','') [])) (split str (CHR '';'') [])"

definition rows_elems :: "nat \<Rightarrow> string \<Rightarrow> string list" where
  "rows_elems k str =
     concat (map (\<lambda>row. split row (CHR '','') []) (take k (split str (CHR '';'') [])))"

subsection \<open>The divisor of the normalisation\<close>

text \<open>
  The sum of all weights as \<^verbatim>\<open>std::accumulate\<close> computes it, the sum of the strictly
  positive weights, the test for an essentially zero sum, and the divisor: the
  positive sum in the zero-sum case, the plain sum otherwise.
\<close>

definition weights_sum :: "('f, 'd) cxx_float \<Rightarrow> 'f list \<Rightarrow> 'f" where
  "weights_sum fp ws =
     to_float fp (foldl (\<lambda>acc w. d_add fp acc (to_double fp w)) (d_zero fp) ws)"

definition strictly_positive :: "('f, 'd) cxx_float \<Rightarrow> 'f \<Rightarrow> bool" where
  "strictly_positive fp w \<longleftrightarrow> d_less fp (d_zero fp) (to_double fp w)"

definition positive_sum :: "('f, 'd) cxx_float \<Rightarrow> 'f list \<Rightarrow> 'f" where
  "positive_sum fp ws = foldl (f_add fp) (to_float fp (d_zero fp)) (filter (strictly_positive fp) ws)"

definition below_epsilon :: "('f, 'd) cxx_float \<Rightarrow> 'f \<Rightarrow> bool" where
  "below_epsilon fp s \<longleftrightarrow> d_less fp (d_fabs fp (to_double fp s)) (d_epsilon fp)"

definition is_zero :: "('f, 'd) cxx_float \<Rightarrow> 'f \<Rightarrow> bool" where
  "is_zero fp s \<longleftrightarrow> d_eq fp (to_double fp s) (d_zero fp)"

definition divisor :: "('f, 'd) cxx_float \<Rightarrow> 'f list \<Rightarrow> 'f" where
  "divisor fp ws =
     (if below_epsilon fp (weights_sum fp ws) then positive_sum fp ws else weights_sum fp ws)"

subsection \<open>The parts of the shader source\<close>

text \<open>
  The offset of coefficient \<open>i\<close> as the spec defines it, on unbounded integers; the
  declaration of coefficient \<open>i\<close>; its term of the accumulation expression; the
  declarations of all coefficients in row-major order; the accumulation expression,
  with its terms joined by \<^verbatim>\<open> +\<close> and a line break; and the two step constants.
\<close>

definition offset_x :: "nat \<Rightarrow> nat \<Rightarrow> int" where
  "offset_x i width = int (i mod width) - int ((width - 1) div 2)"

definition offset_y :: "nat \<Rightarrow> nat \<Rightarrow> nat \<Rightarrow> int" where
  "offset_y i width height = - (int (i div width) - int ((height - 1) div 2))"

definition filter_decl :: "('f, 'd) cxx_float \<Rightarrow> nat \<Rightarrow> 'f \<Rightarrow> string" where
  "filter_decl fp i w =
     ''const float Filter'' @ show_nat i @ '' = '' @ show_fixed fp 6 w @ '';'' @ endl"

definition convolution_term :: "('f, 'd) cxx_float \<Rightarrow> nat \<Rightarrow> nat \<Rightarrow> nat \<Rightarrow> string" where
  "convolution_term fp width height i =
     ''texture2D(Texture0, TextureCoord + vec2(''
       @ show_fixed fp 1 (from_int fp (offset_x i width)) @ '' * TextureStepX, ''
       @ show_fixed fp 1 (from_int fp (offset_y i width height)) @ '' * TextureStepY)) * Filter''
       @ show_nat i"

definition filter_decls :: "('f, 'd) cxx_float \<Rightarrow> 'f list \<Rightarrow> string" where
  "filter_decls fp array = concat (map (\<lambda>i. filter_decl fp i (array ! i)) [0..<length array])"

definition convolution_expr :: "('f, 'd) cxx_float \<Rightarrow> nat \<Rightarrow> nat \<Rightarrow> nat \<Rightarrow> string" where
  "convolution_expr fp n width height =
     ''result = '' @ join ('' +'' @ endl) (map (convolution_term fp width height) [0..<n])
       @ '';'' @ endl"

definition step_consts :: "('f, 'd) cxx_float \<Rightarrow> string" where
  "step_consts fp =
     ''const float TextureStepY = '' @ show_fixed fp 6 (f_div fp (from_int fp 1) (from_int fp 600))
       @ '';'' @ endl
     @ ''const float TextureStepX = '' @ show_fixed fp 6 (f_div fp (from_int fp 1) (from_int fp 800))
       @ '';'' @ endl"

text \<open>A text in which the character \<^verbatim>\<open>$\<close> of the placeholder token does not occur.\<close>

definition dollar_free :: "string \<Rightarrow> bool" where
  "dollar_free s \<longleftrightarrow> CHR ''$'' \<notin> set s"

section \<open>The matrix parser\<close>

subsection \<open>What split returns\<close>

lemma split_Nil: "split [] d elems = elems"
  by (simp add: split.simps)

lemma split_Cons:
  "split (c # cs) d elems =
     split (drop 1 (dropWhile (\<lambda>x. x \<noteq> d) (c # cs))) d
       (elems @ [takeWhile (\<lambda>x. x \<noteq> d) (c # cs)])"
  by (subst split.simps) simp

lemma split_item:
  assumes "d \<notin> set t"
  shows "split (t @ d # rest) d elems = split rest d (elems @ [t])"
proof -
  have tw: "takeWhile (\<lambda>x. x \<noteq> d) (t @ d # rest) = t"
    using assms by (auto simp: takeWhile_tail)
  have dw: "dropWhile (\<lambda>x. x \<noteq> d) (t @ d # rest) = d # rest"
    using assms by (auto simp: dropWhile_append3)
  obtain c cs where eq: "t @ d # rest = c # cs"
    by (cases "t @ d # rest") auto
  have "split (c # cs) d elems
          = split (drop 1 (dropWhile (\<lambda>x. x \<noteq> d) (c # cs))) d
              (elems @ [takeWhile (\<lambda>x. x \<noteq> d) (c # cs)])"
    by (rule split_Cons)
  then show ?thesis
    unfolding eq [symmetric] tw dw by simp
qed

lemma split_last:
  assumes "d \<notin> set t" and "t \<noteq> []"
  shows "split t d elems = elems @ [t]"
proof -
  have tw: "takeWhile (\<lambda>x. x \<noteq> d) t = t"
    using assms by (auto simp: takeWhile_eq_all_conv)
  have dw: "dropWhile (\<lambda>x. x \<noteq> d) t = []"
    using assms by (auto simp: dropWhile_eq_Nil_conv)
  obtain c cs where eq: "t = c # cs"
    using assms by (cases t) auto
  have "split (c # cs) d elems
          = split (drop 1 (dropWhile (\<lambda>x. x \<noteq> d) (c # cs))) d
              (elems @ [takeWhile (\<lambda>x. x \<noteq> d) (c # cs)])"
    by (rule split_Cons)
  then show ?thesis
    unfolding eq [symmetric] tw dw by (simp add: split_Nil)
qed

lemma split_join:
  assumes "\<forall>t \<in> set ts. t \<noteq> [] \<and> d \<notin> set t"
  shows "split (join [d] ts) d elems = elems @ ts"
  using assms
proof (induction "[d]" ts arbitrary: elems rule: join.induct)
  case 1
  show ?case by (simp add: split_Nil)
next
  case (2 t)
  then show ?case by (simp add: split_last)
next
  case (3 t u ts)
  have "split (join [d] (t # u # ts)) d elems = split (join [d] (u # ts)) d (elems @ [t])"
    using "3.prems" by (simp add: split_item)
  also have "\<dots> = (elems @ [t]) @ u # ts"
    using "3.prems" by (intro "3.hyps") simp
  finally show ?case by simp
qed

lemma push_elems:
  "foldl (\<lambda>filt el. filt @ [read_float fp el]) filt elems = filt @ map (read_float fp) elems"
  by (induction elems arbitrary: filt) simp_all

lemma join_nonempty: "ts \<noteq> [] \<Longrightarrow> \<forall>t \<in> set ts. t \<noteq> [] \<Longrightarrow> join sep ts \<noteq> []"
  by (induction sep ts rule: join.induct) simp_all

lemma set_join: "set (join sep ts) \<subseteq> set sep \<union> \<Union> (set ` set ts)"
  by (induction sep ts rule: join.induct) auto


lemma UINT_MAX_unat: "unat UINT_MAX = 4294967295"
  by (simp add: UINT_MAX_def)

lemma uint_of_nat_unat: "n < 4294967296 \<Longrightarrow> unat (of_nat n :: uint) = n"
  by (simp add: unat_of_nat)

lemma uint_of_nat_not_max: "n < 4294967295 \<Longrightarrow> (of_nat n :: uint) \<noteq> UINT_MAX"
proof
  assume n: "n < 4294967295" and eq: "(of_nat n :: uint) = UINT_MAX"
  have "unat (of_nat n :: uint) = n" using n by (simp add: unat_of_nat)
  with eq have "n = 4294967295" by (simp add: UINT_MAX_unat)
  with n show False by simp
qed

text \<open>Rows of one element count run through the loop.\<close>

lemma parse_rows_uniform:
  assumes "\<forall>row \<in> set rows. length (split row (CHR '','') []) = n"
    and "n < 4294967296"
    and "w = UINT_MAX \<or> unat w = n"
  shows "parse_rows fp rows r w filt =
           (True, if rows = [] then w else of_nat n,
            filt @ map (read_float fp) (concat (map (\<lambda>row. split row (CHR '','') []) rows)), [])"
  using assms
proof (induction rows arbitrary: r w filt)
  case Nil
  show ?case by simp
next
  case (Cons row rows)
  have len: "length (split row (CHR '','') []) = n"
    using Cons.prems(1) by simp
  have un: "unat (of_nat n :: uint) = n"
    using Cons.prems(2) by (rule uint_of_nat_unat)
  have step: "parse_rows fp (row # rows) r w filt =
      parse_rows fp rows (Suc r) (of_nat n)
        (filt @ map (read_float fp) (split row (CHR '','') []))"
    using Cons.prems(3) len by (auto simp: Let_def push_elems)
  have "parse_rows fp rows (Suc r) (of_nat n)
          (filt @ map (read_float fp) (split row (CHR '','') [])) =
        (True, if rows = [] then of_nat n else of_nat n,
         (filt @ map (read_float fp) (split row (CHR '','') []))
           @ map (read_float fp) (concat (map (\<lambda>row. split row (CHR '','') []) rows)), [])"
    using Cons.prems(1,2) un by (intro Cons.IH) simp_all
  with step show ?case by simp
qed

text \<open>
  Once \<open>w\<close> holds a count below the sentinel, the loop fails exactly when a row has
  another count.
\<close>

lemma parse_rows_fails_iff:
  assumes "\<forall>row \<in> set rows. length (split row (CHR '','') []) < 4294967295"
    and "c < 4294967295"
  shows "fst (parse_rows fp rows r (of_nat c) filt) = False
           \<longleftrightarrow> (\<exists>row \<in> set rows. length (split row (CHR '','') []) \<noteq> c)"
  using assms(1)
proof (induction rows arbitrary: r filt)
  case Nil
  show ?case by simp
next
  case (Cons row rows)
  have nm: "(of_nat c :: uint) \<noteq> UINT_MAX"
    using assms(2) by (rule uint_of_nat_not_max)
  have un: "unat (of_nat c :: uint) = c"
    using assms(2) by (simp add: uint_of_nat_unat)
  show ?case
  proof (cases "length (split row (CHR '','') []) = c")
    case True
    then have "parse_rows fp (row # rows) r (of_nat c) filt =
        parse_rows fp rows (Suc r) (of_nat c)
          (filt @ map (read_float fp) (split row (CHR '','') []))"
      using un by (simp add: Let_def push_elems)
    moreover have "fst (parse_rows fp rows (Suc r) (of_nat c)
          (filt @ map (read_float fp) (split row (CHR '','') []))) = False
        \<longleftrightarrow> (\<exists>row \<in> set rows. length (split row (CHR '','') []) \<noteq> c)"
      using Cons.prems by (intro Cons.IH) simp
    ultimately show ?thesis using True by simp
  next
    case False
    then show ?thesis using nm un by (simp add: Let_def)
  qed
qed

lemma parse_matrix_fails_iff:
  assumes "\<forall>c \<in> set (row_counts str). c < 4294967295"
  shows "fst (parse_matrix fp str filt width height) = False
           \<longleftrightarrow> (case row_counts str of [] \<Rightarrow> False | c # later \<Rightarrow> \<exists>c' \<in> set later. c' \<noteq> c)"
proof (cases "split str (CHR '';'') []")
  case Nil
  then show ?thesis by (simp add: parse_matrix_def row_counts_def)
next
  case (Cons row rows)
  let ?c = "length (split row (CHR '','') [])"
  have c: "?c < 4294967295" and rest: "\<forall>row \<in> set rows. length (split row (CHR '','') []) < 4294967295"
    using assms Cons by (simp_all add: row_counts_def)
  have "parse_rows fp (row # rows) 0 UINT_MAX filt =
      parse_rows fp rows (Suc 0) (of_nat ?c) (filt @ map (read_float fp) (split row (CHR '','') []))"
    by (simp add: Let_def push_elems)
  moreover have "fst (parse_rows fp rows (Suc 0) (of_nat ?c)
        (filt @ map (read_float fp) (split row (CHR '','') []))) = False
      \<longleftrightarrow> (\<exists>row \<in> set rows. length (split row (CHR '','') []) \<noteq> ?c)"
    using rest c by (rule parse_rows_fails_iff)
  ultimately have "fst (parse_rows fp (split str (CHR '';'') []) 0 UINT_MAX filt) = False
      \<longleftrightarrow> (\<exists>row \<in> set rows. length (split row (CHR '','') []) \<noteq> ?c)"
    using Cons by simp
  moreover have "fst (parse_matrix fp str filt width height)
      = fst (parse_rows fp (split str (CHR '';'') []) 0 UINT_MAX filt)"
    by (simp add: parse_matrix_def Let_def split: prod.splits)
  ultimately show ?thesis using Cons by (simp add: row_counts_def)
qed

subsection \<open>Well-formed matrix strings\<close>

lemma split_matrix_row:
  assumes "\<forall>t \<in> set row. token_ok t"
  shows "split (join '','' row) (CHR '','') [] = row"
  using split_join [of row "CHR '',''" "[]"] assms by (simp add: token_ok_def)

lemma split_matrix_string:
  assumes "well_formed rows n"
  shows "split (matrix_string rows) (CHR '';'') [] = map (join '','') rows"
proof -
  have "\<forall>s \<in> set (map (join '','') rows). s \<noteq> [] \<and> CHR '';'' \<notin> set s"
  proof
    fix s assume "s \<in> set (map (join '','') rows)"
    then obtain row where row: "row \<in> set rows" and s: "s = join '','' row" by auto
    from assms row have len: "length row = n" "0 < n" and toks: "\<forall>t \<in> set row. token_ok t"
      by (auto simp: well_formed_def)
    from len have "row \<noteq> []" by auto
    moreover from toks have "\<forall>t \<in> set row. t \<noteq> []" by (simp add: token_ok_def)
    ultimately have "join '','' row \<noteq> []" by (rule join_nonempty)
    moreover have "CHR '';'' \<notin> set (join '','' row)"
      using set_join [of "'',''" row] toks by (auto simp: token_ok_def)
    ultimately show "s \<noteq> [] \<and> CHR '';'' \<notin> set s" using s by simp
  qed
  then show ?thesis
    using split_join [of "map (join '','') rows" "CHR '';''" "[]"]
    by (simp add: matrix_string_def)
qed

lemma parse_matrix_of_matrix:
  assumes "well_formed rows n" and "n < 4294967296"
  shows "parse_matrix fp (matrix_string rows) filt width height =
           (True, filt @ map (read_float fp) (concat rows), of_nat n, of_nat (length rows), [])"
proof -
  let ?strs = "map (join '','') rows"
  have each: "\<forall>row \<in> set rows. split (join '','' row) (CHR '','') [] = row"
    using assms(1) by (auto simp: well_formed_def intro: split_matrix_row)
  have counts: "\<forall>s \<in> set ?strs. length (split s (CHR '','') []) = n"
    using assms(1) each by (auto simp: well_formed_def)
  have elems: "map (\<lambda>s. split s (CHR '','') []) ?strs = rows"
    using each by (simp add: map_idI)
  have ne: "?strs \<noteq> []"
    using assms(1) by (simp add: well_formed_def)
  have "parse_rows fp ?strs 0 UINT_MAX filt =
          (True, if ?strs = [] then UINT_MAX else of_nat n,
           filt @ map (read_float fp) (concat (map (\<lambda>s. split s (CHR '','') []) ?strs)), [])"
    using counts assms(2) by (rule parse_rows_uniform) simp
  then have "parse_rows fp ?strs 0 UINT_MAX filt =
          (True, of_nat n, filt @ map (read_float fp) (concat rows), [])"
    using ne elems by simp
  then show ?thesis
    by (simp add: parse_matrix_def split_matrix_string [OF assms(1)])
qed

lemma split_eval:
  "split [] d elems = elems"
  "split (c # cs) d elems =
     split (drop 1 (dropWhile (\<lambda>x. x \<noteq> d) (c # cs))) d
       (elems @ [takeWhile (\<lambda>x. x \<noteq> d) (c # cs)])"
  by (rule split_Nil, rule split_Cons)

lemma read_decimal_0: "read_decimal ''0'' = 0"
  by (simp add: read_decimal_def digit_value_def digits_value_def)

lemma read_decimal_1: "read_decimal ''1'' = 1"
  by (simp add: read_decimal_def digit_value_def digits_value_def)

lemma read_decimal_2: "read_decimal ''2'' = 2"
  by (simp add: read_decimal_def digit_value_def digits_value_def)

lemma read_float_exact: "read_float exact = read_decimal"
  by (simp add: exact_def)

text \<open>
  Claim C1, amended. For every well-formed matrix string (rows delimited by \<^verbatim>\<open>;\<close>,
  elements by \<^verbatim>\<open>,\<close>, all rows of the same length \<open>n\<close>) with fewer than \<open>2^32\<close> elements in
  a row and fewer than \<open>2^32\<close> rows, \<^verbatim>\<open>parse_matrix\<close>, called with an empty vector as
  \<^verbatim>\<open>setup\<close> calls it, succeeds, sets the width to the number of elements of a row and
  the height to the number of rows, logs nothing, and leaves in the vector the elements
  of all rows, read in row-major order. In particular the string \<^verbatim>\<open>0,0,0;0,1,0;0,0,0\<close>
  gives width 3, height 3 and the weights 0,0,0,0,1,0,0,0,0 in this order.
\<close>

theorem parse_matrix_well_formed:
  assumes "well_formed rows n" and "n < 4294967296" and "length rows < 4294967296"
  shows "parse_matrix fp (matrix_string rows) [] width height =
           (True, map (read_float fp) (concat rows), of_nat n, of_nat (length rows), [])
         \<and> unat (of_nat n :: uint) = n
         \<and> unat (of_nat (length rows) :: uint) = length rows
         \<and> parse_matrix exact ''0,0,0;0,1,0;0,0,0'' [] width height =
             (True, [0, 0, 0, 0, 1, 0, 0, 0, 0], 3, 3, [])"
proof -
  have "parse_matrix fp (matrix_string rows) [] width height =
           (True, map (read_float fp) (concat rows), of_nat n, of_nat (length rows), [])"
    using parse_matrix_of_matrix [OF assms(1,2), of fp "[]" width height] by simp
  moreover have "unat (of_nat n :: uint) = n"
    using assms(2) by (rule uint_of_nat_unat)
  moreover have "unat (of_nat (length rows) :: uint) = length rows"
    using assms(3) by (rule uint_of_nat_unat)
  moreover have "parse_matrix exact ''0,0,0;0,1,0;0,0,0'' [] width height =
             (True, [0, 0, 0, 0, 1, 0, 0, 0, 0], 3, 3, [])"
    by (simp add: parse_matrix_def split_eval UINT_MAX_def read_float_exact
        read_decimal_0 read_decimal_1)
  ultimately show ?thesis by simp
qed

text \<open>The theorem at the matrix \<^verbatim>\<open>1,2;0,1\<close>.\<close>

theorem parse_matrix_well_formed_witness:
  "well_formed [[''1'', ''2''], [''0'', ''1'']] 2
   \<and> parse_matrix exact (matrix_string [[''1'', ''2''], [''0'', ''1'']]) [] 7 9 =
       (True, [1, 2, 0, 1], 2, 2, [])
   \<and> matrix_string [[''1'', ''2''], [''0'', ''1'']] = ''1,2;0,1''"
proof -
  have wf: "well_formed [[''1'', ''2''], [''0'', ''1'']] 2"
    by (simp add: well_formed_def token_ok_def)
  have "parse_matrix exact (matrix_string [[''1'', ''2''], [''0'', ''1'']]) [] 7 9 =
       (True, map (read_float exact) (concat [[''1'', ''2''], [''0'', ''1'']]), of_nat 2,
        of_nat (length [[''1'', ''2''], [''0'', ''1'']]), [])"
    using parse_matrix_well_formed [OF wf, of exact 7 9] by simp
  then show ?thesis
    using wf by (simp add: read_float_exact read_decimal_0 read_decimal_1 read_decimal_2
        matrix_string_def)
qed

text \<open>A row of 4294967296 tokens \<^verbatim>\<open>0\<close>, and the matrix of this one row.\<close>

lemma split_wide_row:
  "split (join '','' (replicate 4294967296 ''0'')) (CHR '','') [] = replicate 4294967296 ''0''"
  using split_join [of "replicate 4294967296 ''0''" "CHR '',''" "[]"] by simp

lemma split_wide_matrix:
  "split (matrix_string [replicate 4294967296 ''0'']) (CHR '';'') []
     = [join '','' (replicate 4294967296 ''0'')]"
proof -
  have "join '','' (replicate 4294967296 ''0'') \<noteq> []"
    by (rule join_nonempty) simp_all
  moreover have "CHR '';'' \<notin> set (join '','' (replicate 4294967296 ''0''))"
    using set_join [of "'',''" "replicate 4294967296 ''0''"] by auto
  ultimately show ?thesis
    using split_join [of "[join '','' (replicate 4294967296 ''0'')]" "CHR '';''" "[]"]
    by (simp add: matrix_string_def)
qed

text \<open>
  The claim as stated fails where a row has 4294967296 elements: the count does not fit
  the \<^verbatim>\<open>unsigned int\<close> \<open>w\<close> and is stored as 0. The string is one row of 4294967296
  tokens \<^verbatim>\<open>0\<close> separated by commas; the call succeeds with width 0.
\<close>

theorem parse_matrix_width_wraps_counterexample:
  "well_formed [replicate 4294967296 ''0''] 4294967296
   \<and> parse_matrix exact (matrix_string [replicate 4294967296 ''0'']) [] 7 9
       = (True, replicate 4294967296 0, 0, 1, [])"
proof
  show "well_formed [replicate 4294967296 ''0''] 4294967296"
    by (simp add: well_formed_def token_ok_def)
  have "(of_nat 4294967296 :: uint) = 0"
    by simp
  then show "parse_matrix exact (matrix_string [replicate 4294967296 ''0'']) [] 7 9
      = (True, replicate 4294967296 0, 0, 1, [])"
    by (simp add: parse_matrix_def split_wide_matrix split_wide_row push_elems)
       (simp add: read_float_exact read_decimal_0)
qed

subsection \<open>Failure of the parser\<close>

text \<open>Where the loop stops when it fails.\<close>

lemma parse_rows_failure:
  assumes "fst (parse_rows fp rows r w filt) = False"
  shows "\<exists>k w'. k < length rows
          \<and> parse_rows fp rows r w filt =
              (False, w', filt @ map (read_float fp)
                 (concat (map (\<lambda>row. split row (CHR '','') []) (take k rows))),
               [MatrixRowMismatch (r + k) (length (split (rows ! k) (CHR '','') [])) w'])
          \<and> length (split (rows ! k) (CHR '','') []) \<noteq> unat w'
          \<and> (w = UINT_MAX \<longrightarrow> 0 < k)"
  using assms
proof (induction rows arbitrary: r w filt)
  case Nil
  then show ?case by simp
next
  case (Cons row rows)
  let ?elems = "split row (CHR '','') []"
  show ?case
  proof (cases "w \<noteq> UINT_MAX \<and> length ?elems \<noteq> unat w")
    case True
    then have "parse_rows fp (row # rows) r w filt =
        (False, w, filt, [MatrixRowMismatch r (length ?elems) w])"
      by (simp add: Let_def)
    with True show ?thesis
      by (intro exI [of _ 0] exI [of _ w]) simp
  next
    case False
    then have step: "parse_rows fp (row # rows) r w filt =
        parse_rows fp rows (Suc r) (of_nat (length ?elems)) (filt @ map (read_float fp) ?elems)"
      by (auto simp: Let_def push_elems)
    with Cons.prems have "fst (parse_rows fp rows (Suc r) (of_nat (length ?elems))
        (filt @ map (read_float fp) ?elems)) = False"
      by simp
    from Cons.IH [OF this] obtain k w' where k: "k < length rows"
      and res: "parse_rows fp rows (Suc r) (of_nat (length ?elems))
          (filt @ map (read_float fp) ?elems) =
        (False, w', (filt @ map (read_float fp) ?elems) @ map (read_float fp)
           (concat (map (\<lambda>row. split row (CHR '','') []) (take k rows))),
         [MatrixRowMismatch (Suc r + k) (length (split (rows ! k) (CHR '','') [])) w'])"
      and ne: "length (split (rows ! k) (CHR '','') []) \<noteq> unat w'"
      by blast
    show ?thesis
      using k res ne step by (intro exI [of _ "Suc k"] exI [of _ w']) simp
  qed
qed

lemma parse_matrix_failure:
  assumes "fst (parse_matrix fp str filt width height) = False"
  shows "\<exists>k w. 0 < k \<and> k < length (row_counts str)
          \<and> parse_matrix fp str filt width height =
              (False, filt @ map (read_float fp) (rows_elems k str), width, height,
               [MatrixRowMismatch k (row_counts str ! k) w])
          \<and> row_counts str ! k \<noteq> unat w"
proof -
  let ?rows = "split str (CHR '';'') []"
  have fails: "fst (parse_rows fp ?rows 0 UINT_MAX filt) = False"
    using assms by (simp add: parse_matrix_def Let_def split: prod.splits if_splits)
  from parse_rows_failure [OF this] obtain k w' where k: "k < length ?rows"
    and res: "parse_rows fp ?rows 0 UINT_MAX filt =
        (False, w', filt @ map (read_float fp)
           (concat (map (\<lambda>row. split row (CHR '','') []) (take k ?rows))),
         [MatrixRowMismatch (0 + k) (length (split (?rows ! k) (CHR '','') [])) w'])"
    and ne: "length (split (?rows ! k) (CHR '','') []) \<noteq> unat w'"
    and pos: "UINT_MAX = UINT_MAX \<longrightarrow> 0 < k"
    by blast
  have "0 < k" using pos by simp
  then show ?thesis
    using k res ne
    by (intro exI [of _ k] exI [of _ w'])
       (simp add: parse_matrix_def row_counts_def rows_elems_def Let_def)
qed


lemma parse_matrix_1_2_3:
  "parse_matrix fp ''1,2;3'' filt width height =
     (False, filt @ [read_float fp ''1'', read_float fp ''2''], width, height,
      [MatrixRowMismatch 1 1 2])"
  by (simp add: parse_matrix_def split_eval UINT_MAX_def)

lemma row_counts_1_2_3: "row_counts ''1,2;3'' = [2, 1]"
  by (simp add: row_counts_def split_eval)

text \<open>
  Claim C5, amended. On a string none of whose rows has 4294967295 (the value of
  \<^verbatim>\<open>UINT_MAX\<close>) or more elements, \<^verbatim>\<open>parse_matrix\<close> returns failure if and only if some
  later row's element count differs from the first row's. In particular the string
  \<^verbatim>\<open>1,2;3\<close> fails, and the logged error names row 1, its 1 element and the 2 elements of
  the row before.
\<close>

theorem parse_matrix_fails_iff_mismatch:
  assumes "\<forall>c \<in> set (row_counts str). c < 4294967295"
  shows "(fst (parse_matrix fp str filt width height) = False
            \<longleftrightarrow> (case row_counts str of [] \<Rightarrow> False
                 | c # later \<Rightarrow> \<exists>c' \<in> set later. c' \<noteq> c))
         \<and> parse_matrix fp ''1,2;3'' filt width height =
             (False, filt @ [read_float fp ''1'', read_float fp ''2''], width, height,
              [MatrixRowMismatch 1 1 2])"
  using parse_matrix_fails_iff [OF assms, of fp filt width height]
    parse_matrix_1_2_3 [of fp filt width height]
  by (rule conjI)

text \<open>The theorem at the string \<^verbatim>\<open>1,2;3\<close>, whose rows have 2 and 1 elements.\<close>

theorem parse_matrix_fails_iff_mismatch_witness:
  "row_counts ''1,2;3'' = [2, 1]
   \<and> fst (parse_matrix exact ''1,2;3'' [] 0 0) = False
   \<and> parse_matrix exact ''1,2;3'' [] 0 0 = (False, [1, 2], 0, 0, [MatrixRowMismatch 1 1 2])"
proof -
  have "\<forall>c \<in> set (row_counts ''1,2;3''). c < 4294967295"
    by (simp add: row_counts_1_2_3)
  from parse_matrix_fails_iff_mismatch [OF this, of exact "[]" 0 0]
  show ?thesis
    by (simp add: row_counts_1_2_3 read_float_exact read_decimal_1 read_decimal_2)
qed

text \<open>A row of 4294967295 tokens \<^verbatim>\<open>0\<close>, followed by a row of one token.\<close>

lemma split_long_row:
  "split (join '','' (replicate 4294967295 ''0'')) (CHR '','') [] = replicate 4294967295 ''0''"
  using split_join [of "replicate 4294967295 ''0''" "CHR '',''" "[]"] by simp

lemma long_row_chars:
  "join '','' (replicate 4294967295 ''0'') \<noteq> []
   \<and> CHR '';'' \<notin> set (join '','' (replicate 4294967295 ''0''))"
proof
  show "join '','' (replicate 4294967295 ''0'') \<noteq> []"
    by (rule join_nonempty) simp_all
  show "CHR '';'' \<notin> set (join '','' (replicate 4294967295 ''0''))"
    using set_join [of "'',''" "replicate 4294967295 ''0''"] by auto
qed

lemma split_long_matrix:
  "split (matrix_string [replicate 4294967295 ''0'', [''1'']]) (CHR '';'') []
     = [join '','' (replicate 4294967295 ''0''), ''1'']"
  using split_join [of "[join '','' (replicate 4294967295 ''0''), ''1'']" "CHR '';''" "[]"]
    long_row_chars
  by (simp add: matrix_string_def)

text \<open>
  The claim as stated fails where the first row has exactly 4294967295 elements: its
  count is stored in \<open>w\<close> as \<^verbatim>\<open>UINT_MAX\<close>, the value that stands for "no row yet", and the
  next row is not compared. The string is 4294967295 tokens \<^verbatim>\<open>0\<close> separated by
  commas, a semicolon, and the token \<^verbatim>\<open>1\<close>.
\<close>

theorem parse_matrix_sentinel_counterexample:
  "row_counts (matrix_string [replicate 4294967295 ''0'', [''1'']]) = [4294967295, 1]
   \<and> fst (parse_matrix exact (matrix_string [replicate 4294967295 ''0'', [''1'']]) [] 0 0)
       = True"
proof
  show "row_counts (matrix_string [replicate 4294967295 ''0'', [''1'']]) = [4294967295, 1]"
    by (simp add: row_counts_def split_long_matrix split_long_row split_eval)
  have "of_nat 4294967295 = UINT_MAX"
    by (simp add: UINT_MAX_def)
  then show "fst (parse_matrix exact (matrix_string [replicate 4294967295 ''0'', [''1'']])
      [] 0 0) = True"
    by (simp add: parse_matrix_def split_long_matrix split_long_row split_eval Let_def)
qed

text \<open>
  Claim C6, amended. When \<^verbatim>\<open>parse_matrix\<close> fails, the out-parameters \<^verbatim>\<open>width\<close> and
  \<^verbatim>\<open>height\<close> are left as they were, one error is logged for the offending row \<open>k\<close>,
  which is not the first, and the caller's vector holds what it held before followed
  by the elements of the \<open>k\<close> rows before the offending one.
\<close>

theorem parse_matrix_failure_state:
  assumes "fst (parse_matrix fp str filt width height) = False"
  shows "\<exists>k w. 0 < k \<and> k < length (row_counts str)
          \<and> parse_matrix fp str filt width height =
              (False, filt @ map (read_float fp) (rows_elems k str), width, height,
               [MatrixRowMismatch k (row_counts str ! k) w])
          \<and> row_counts str ! k \<noteq> unat w"
  using assms by (rule parse_matrix_failure)

text \<open>The theorem at the string \<^verbatim>\<open>1,2;3\<close>.\<close>

theorem parse_matrix_failure_state_witness:
  "fst (parse_matrix exact ''1,2;3'' [] 7 9) = False
   \<and> (\<exists>k w. 0 < k \<and> k < length (row_counts ''1,2;3'')
        \<and> parse_matrix exact ''1,2;3'' [] 7 9 =
            (False, [] @ map (read_float exact) (rows_elems k ''1,2;3''), 7, 9,
             [MatrixRowMismatch k (row_counts ''1,2;3'' ! k) w])
        \<and> row_counts ''1,2;3'' ! k \<noteq> unat w)"
proof -
  have f: "fst (parse_matrix exact ''1,2;3'' [] 7 9) = False"
    by (simp add: parse_matrix_1_2_3)
  from parse_matrix_failure_state [OF f] f show ?thesis by simp
qed

text \<open>
  The claim as stated fails on the string \<^verbatim>\<open>1,2;3\<close>: the call fails, and the vector,
  empty before the call, holds the two elements of the first row after it.
\<close>

theorem parse_matrix_partial_vector_counterexample:
  "parse_matrix exact ''1,2;3'' [] 7 9 = (False, [1, 2], 7, 9, [MatrixRowMismatch 1 1 2])
   \<and> fst (snd (parse_matrix exact ''1,2;3'' [] 7 9)) \<noteq> []"
  by (simp add: parse_matrix_1_2_3 read_float_exact read_decimal_1 read_decimal_2)

section \<open>The offset of a coefficient\<close>

lemma sint_diff:
  fixes a b :: uint
  assumes "- 2147483648 \<le> int (unat a) - int (unat b)"
    and "int (unat a) - int (unat b) < 2147483648"
  shows "sint (a - b) = int (unat a) - int (unat b)"
proof -
  have "sint (a - b) = sint (word_of_int (uint a - uint b) :: uint)"
    by (simp only: word_sub_wi [symmetric])
  also have "\<dots> = signed_take_bit (LENGTH(32) - 1) (uint a - uint b)"
    by (rule sint_sbintrunc')
  also have "\<dots> = signed_take_bit 31 (uint a - uint b)"
    by simp
  also have "\<dots> = uint a - uint b"
    using assms by (intro signed_take_bit_int_eq_self) simp_all
  finally show ?thesis by simp
qed

lemma unat_center:
  fixes n :: uint
  assumes "n \<noteq> 0"
  shows "unat ((n - 1) div 2) = (unat n - 1) div 2"
  using assms by (simp add: unat_div unat_minus_one)

lemma unat_uint_bound: "unat (n :: uint) < 4294967296"
  using unsigned_less [of n, where 'a = nat] by simp

lemma calc_offset_eq:
  assumes "unat i < unat width * unat height"
  shows "calc_offset fp i width height =
           Some (from_int fp (offset_x (unat i) (unat width)),
                 from_int fp (offset_y (unat i) (unat width) (unat height)))"
proof -
  from assms have w0: "width \<noteq> 0" and h0: "height \<noteq> 0"
    by (auto simp: unat_eq_zero intro: ccontr)
  have wpos: "0 < unat width" and hpos: "0 < unat height"
    using w0 h0 by (simp_all add: unat_gt_0)
  have wb: "unat width < 4294967296" and hb: "unat height < 4294967296"
    by (rule unat_uint_bound)+
  have col: "unat (i mod width) = unat i mod unat width"
    by (rule unat_mod)
  have row: "unat (i div width) = unat i div unat width"
    by (rule unat_div)
  have colb: "unat i mod unat width < unat width"
    using wpos by simp
  have rowb: "unat i div unat width < unat height"
    using assms by (simp add: less_mult_imp_div_less mult.commute)
  have cx: "unat ((width - 1) div 2) = (unat width - 1) div 2"
    using w0 by (rule unat_center)
  have cy: "unat ((height - 1) div 2) = (unat height - 1) div 2"
    using h0 by (rule unat_center)
  have xlo: "- 2147483648 \<le> int (unat i mod unat width) - int ((unat width - 1) div 2)"
    using wb by linarith
  have xhi: "int (unat i mod unat width) - int ((unat width - 1) div 2) < 2147483648"
    using colb wb by linarith
  have "sint (i mod width - (width - 1) div 2)
      = int (unat (i mod width)) - int (unat ((width - 1) div 2))"
    by (rule sint_diff) (use xlo xhi in \<open>simp_all add: col cx\<close>)
  then have x: "sint (i mod width - (width - 1) div 2) = offset_x (unat i) (unat width)"
    by (simp add: offset_x_def col cx)
  have ylo: "- 2147483648 \<le> int ((unat height - 1) div 2) - int (unat i div unat width)"
    using rowb hb by linarith
  have yhi: "int ((unat height - 1) div 2) - int (unat i div unat width) < 2147483648"
    using hb by linarith
  have "- (i div width - (height - 1) div 2) = (height - 1) div 2 - i div width"
    by simp
  moreover have "sint ((height - 1) div 2 - i div width)
      = int (unat ((height - 1) div 2)) - int (unat (i div width))"
    by (rule sint_diff) (use ylo yhi in \<open>simp_all add: row cy\<close>)
  ultimately have y: "sint (- (i div width - (height - 1) div 2))
      = offset_y (unat i) (unat width) (unat height)"
    by (simp add: offset_y_def row cy)
  show ?thesis
    using w0 x y by (simp add: calc_offset_def Let_def)
qed

text \<open>
  Claim C2. For every linear index \<open>i\<close> with \<open>i < width * height\<close>, \<^verbatim>\<open>calc_offset\<close> returns
  the pair of \<open>col - center.x\<close> and \<open>- (row - center.y)\<close>, each converted to \<^verbatim>\<open>float\<close>,
  where \<open>col = i mod width\<close>, \<open>row = i div width\<close> and the center is
  \<open>((width - 1) div 2, (height - 1) div 2)\<close>: no subtraction wraps around, and the \<open>y\<close>
  component is negated. In particular the offset of index 4 in a 3 by 3 kernel is
  \<open>(0, 0)\<close> and that of index 0 is \<open>(-1, 1)\<close>.
\<close>

theorem calc_offset_centered:
  assumes "unat i < unat width * unat height"
  shows "calc_offset fp i width height =
           Some (from_int fp (int (unat i mod unat width) - int ((unat width - 1) div 2)),
                 from_int fp (- (int (unat i div unat width) - int ((unat height - 1) div 2))))
         \<and> calc_offset exact 4 3 3 = Some (0, 0)
         \<and> calc_offset exact 0 3 3 = Some (- 1, 1)"
proof -
  have "calc_offset fp i width height =
           Some (from_int fp (int (unat i mod unat width) - int ((unat width - 1) div 2)),
                 from_int fp (- (int (unat i div unat width) - int ((unat height - 1) div 2))))"
    using calc_offset_eq [OF assms, of fp] by (simp add: offset_x_def offset_y_def)
  moreover have "calc_offset exact 4 3 3 = Some (0, 0)"
    by (simp add: calc_offset_def exact_def)
  moreover have "calc_offset exact 0 3 3 = Some (- 1, 1)"
    by (simp add: calc_offset_def exact_def)
  ultimately show ?thesis by simp
qed

text \<open>The theorem at index 5 of a kernel of width 2 and height 4.\<close>

theorem calc_offset_centered_witness:
  "unat (5 :: uint) < unat (2 :: uint) * unat (4 :: uint)
   \<and> calc_offset exact 5 2 4 = Some (1, - 1)"
proof -
  have h: "unat (5 :: uint) < unat (2 :: uint) * unat (4 :: uint)" by simp
  from calc_offset_centered [OF h, of exact] h show ?thesis
    by (simp add: exact_def)
qed

section \<open>Normalisation\<close>

lemma positive_loop:
  "foldl (\<lambda>s w. if P w then f s w else s) a ws = foldl f a (filter P ws)"
  by (induction ws arbitrary: a) simp_all

lemma normalize_filter_divisor:
  "normalize_filter fp ws =
     (if is_zero fp (divisor fp ws) then ws else map (\<lambda>w. f_div fp w (divisor fp ws)) ws)"
proof -
  have "foldl (\<lambda>sum w. if d_less fp (d_zero fp) (to_double fp w) then f_add fp sum w else sum)
          (to_float fp (d_zero fp)) ws = positive_sum fp ws"
    unfolding positive_sum_def strictly_positive_def by (rule positive_loop)
  then show ?thesis
    by (simp add: normalize_filter_def divisor_def weights_sum_def below_epsilon_def
        is_zero_def Let_def)
qed

lemma foldl_add_sum_list: "foldl (+) a xs = a + sum_list xs"
  for a :: real
  by (induction xs arbitrary: a) simp_all

lemma weights_sum_exact: "weights_sum exact xs = sum_list xs"
  by (simp add: weights_sum_def exact_def foldl_add_sum_list)

lemma strictly_positive_exact: "strictly_positive exact = (\<lambda>w. 0 < w)"
  by (simp add: fun_eq_iff strictly_positive_def exact_def)

lemma positive_sum_exact: "positive_sum exact xs = sum_list (filter (\<lambda>w. 0 < w) xs)"
  by (simp add: positive_sum_def strictly_positive_exact) (simp add: exact_def foldl_add_sum_list)

lemma below_epsilon_exact: "below_epsilon exact s \<longleftrightarrow> \<bar>s\<bar> < 1 / 100000000"
  by (simp add: below_epsilon_def exact_def)

lemma is_zero_exact: "is_zero exact s \<longleftrightarrow> s = 0"
  by (simp add: is_zero_def exact_def)

lemma f_div_exact: "f_div exact = (/)"
  by (simp add: exact_def)

lemmas exact_simps =
  weights_sum_exact positive_sum_exact below_epsilon_exact is_zero_exact f_div_exact

lemma sum_list_divide: "sum_list (map (\<lambda>w. w / c) xs) = sum_list xs / c"
  for c :: real
  by (induction xs) (simp_all add: add_divide_distrib)

lemma positive_sum_nonneg: "0 \<le> sum_list (filter (\<lambda>w. 0 < w) xs)"
  for xs :: "real list"
  by (induction xs) simp_all

lemma filter_positive_divide:
  fixes c :: real
  assumes "0 < c"
  shows "filter (\<lambda>w. 0 < w) (map (\<lambda>w. w / c) xs) = map (\<lambda>w. w / c) (filter (\<lambda>w. 0 < w) xs)"
  using assms by (induction xs) (simp_all add: zero_less_divide_iff)

text \<open>The zero-sum case in exact arithmetic.\<close>

lemma normalize_zero_sum_exact:
  assumes "\<bar>sum_list xs\<bar> < 1 / 100000000" and "sum_list (filter (\<lambda>w. 0 < w) xs) \<noteq> 0"
  shows "normalize_filter exact xs = map (\<lambda>w. w / sum_list (filter (\<lambda>w. 0 < w) xs)) xs"
    and "sum_list (filter (\<lambda>w. 0 < w) (normalize_filter exact xs)) = 1"
proof -
  let ?p = "sum_list (filter (\<lambda>w. 0 < w) xs)"
  show eq: "normalize_filter exact xs = map (\<lambda>w. w / ?p) xs"
    using assms by (simp add: normalize_filter_divisor divisor_def exact_simps)
  have pos: "0 < ?p"
    using assms(2) positive_sum_nonneg [of xs] by simp
  have "sum_list (filter (\<lambda>w. 0 < w) (map (\<lambda>w. w / ?p) xs)) = ?p / ?p"
    by (simp only: filter_positive_divide [OF pos] sum_list_divide)
  with pos eq show "sum_list (filter (\<lambda>w. 0 < w) (normalize_filter exact xs)) = 1"
    by simp
qed


lemma normalize_all_zero_exact:
  assumes "\<forall>w \<in> set xs. w = (0 :: real)"
  shows "normalize_filter exact xs = xs"
proof -
  have "sum_list xs = 0" using assms by (induction xs) simp_all
  moreover have "filter (\<lambda>w. 0 < w) xs = []" using assms by (auto simp: filter_empty_conv)
  ultimately show ?thesis
    by (simp add: normalize_filter_divisor divisor_def exact_simps)
qed

lemma normalize_no_positive_exact:
  assumes "\<bar>sum_list xs\<bar> < 1 / 100000000" and "\<forall>w \<in> set xs. w \<le> (0 :: real)"
  shows "normalize_filter exact xs = xs"
proof -
  have "filter (\<lambda>w. 0 < w) xs = []" using assms(2) by (auto simp: filter_empty_conv)
  then show ?thesis
    using assms(1) by (simp add: normalize_filter_divisor divisor_def exact_simps)
qed

lemma normalize_example:
  "normalize_filter exact [1, - 1, 1, - 1] = [1 / 2, - 1 / 2, 1 / 2, - 1 / 2]"
  by (simp add: normalize_filter_divisor divisor_def exact_simps)

text \<open>
  Claim C3. For every kernel whose weight sum has an absolute value below the fixed
  epsilon, \<^verbatim>\<open>normalize\<close> divides every weight by the sum of only the strictly positive
  weights, when that sum is not zero. This holds for every floating-point arithmetic;
  in exact arithmetic the positive weights sum to 1 afterwards. In particular
  \<open>[1, -1, 1, -1]\<close> becomes \<open>[0.5, -0.5, 0.5, -0.5]\<close>, whose positive weights sum to 1.
\<close>

theorem normalize_zero_sum:
  assumes "below_epsilon fp (weights_sum fp ws)" and "\<not> is_zero fp (positive_sum fp ws)"
  shows "normalize_filter fp ws = map (\<lambda>w. f_div fp w (positive_sum fp ws)) ws
         \<and> (\<forall>xs. \<bar>sum_list xs\<bar> < 1 / 100000000 \<and> sum_list (filter (\<lambda>w. 0 < w) xs) \<noteq> 0
               \<longrightarrow> normalize_filter exact xs
                     = map (\<lambda>w. w / sum_list (filter (\<lambda>w. 0 < w) xs)) xs
                   \<and> sum_list (filter (\<lambda>w. 0 < w) (normalize_filter exact xs)) = 1)
         \<and> normalize_filter exact [1, - 1, 1, - 1] = [1 / 2, - 1 / 2, 1 / 2, - 1 / 2]
         \<and> sum_list (filter (\<lambda>w. 0 < w) (normalize_filter exact [1, - 1, 1, - 1])) = 1"
proof (intro conjI allI impI)
  show "normalize_filter fp ws = map (\<lambda>w. f_div fp w (positive_sum fp ws)) ws"
    using assms by (simp add: normalize_filter_divisor divisor_def)
next
  fix xs :: "real list"
  assume h: "\<bar>sum_list xs\<bar> < 1 / 100000000 \<and> sum_list (filter (\<lambda>w. 0 < w) xs) \<noteq> 0"
  then show "normalize_filter exact xs = map (\<lambda>w. w / sum_list (filter (\<lambda>w. 0 < w) xs)) xs"
    by (intro normalize_zero_sum_exact) simp_all
  from h show "sum_list (filter (\<lambda>w. 0 < w) (normalize_filter exact xs)) = 1"
    by (intro normalize_zero_sum_exact) simp_all
next
  show "normalize_filter exact [1, - 1, 1, - 1] = [1 / 2, - 1 / 2, 1 / 2, - 1 / 2]"
    by (rule normalize_example)
  show "sum_list (filter (\<lambda>w. 0 < w) (normalize_filter exact [1, - 1, 1, - 1])) = 1"
    by (simp add: normalize_example)
qed

text \<open>The theorem at the kernel \<open>[2, -2, 6, -6]\<close>, whose positive weights sum to 8.\<close>

theorem normalize_zero_sum_witness:
  "below_epsilon exact (weights_sum exact [2, - 2, 6, - 6])
   \<and> \<not> is_zero exact (positive_sum exact [2, - 2, 6, - 6])
   \<and> positive_sum exact [2, - 2, 6, - 6] = 8
   \<and> normalize_filter exact [2, - 2, 6, - 6] = [1 / 4, - 1 / 4, 3 / 4, - 3 / 4]
   \<and> sum_list (filter (\<lambda>w. 0 < w) (normalize_filter exact [2, - 2, 6, - 6])) = 1"
proof -
  have b: "below_epsilon exact (weights_sum exact [2, - 2, 6, - 6])"
    by (simp add: exact_simps)
  have p: "positive_sum exact [2, - 2, 6, - 6] = 8"
    by (simp add: exact_simps)
  have z: "\<not> is_zero exact (positive_sum exact [2, - 2, 6, - 6])"
    by (simp add: p is_zero_exact)
  have h: "\<bar>sum_list [2, - 2, 6, - 6 :: real]\<bar> < 1 / 100000000
      \<and> sum_list (filter (\<lambda>w. 0 < w) [2, - 2, 6, - 6 :: real]) \<noteq> 0"
    by simp
  note inst = normalize_zero_sum [OF b z]
  from inst have "normalize_filter exact [2, - 2, 6, - 6]
      = map (\<lambda>w. f_div exact w (positive_sum exact [2, - 2, 6, - 6])) [2, - 2, 6, - 6]"
    by (rule conjunct1)
  moreover from inst h
  have "sum_list (filter (\<lambda>w. 0 < w) (normalize_filter exact [2, - 2, 6, - 6])) = 1"
    by blast
  ultimately show ?thesis
    using b z p by (simp add: f_div_exact)
qed








text \<open>
  Claim C8. \<^verbatim>\<open>normalize\<close> always returns, and it never divides by zero: whenever its
  divisor (the plain sum, or the positive-only sum after the zero-sum fallback)
  compares equal to zero, every weight is left as it was, and otherwise every weight
  is divided by that divisor. This holds for every floating-point arithmetic. In exact
  arithmetic a kernel of zeros, and a kernel with an essentially zero sum and no
  strictly positive weight, are left unchanged.
\<close>

theorem normalize_never_divides_by_zero:
  "(is_zero fp (divisor fp ws) \<longrightarrow> normalize_filter fp ws = ws)
   \<and> (\<not> is_zero fp (divisor fp ws)
        \<longrightarrow> normalize_filter fp ws = map (\<lambda>w. f_div fp w (divisor fp ws)) ws)
   \<and> (\<forall>xs. (\<forall>w \<in> set xs. w = 0) \<longrightarrow> normalize_filter exact xs = xs)
   \<and> (\<forall>xs. \<bar>sum_list xs\<bar> < 1 / 100000000 \<and> (\<forall>w \<in> set xs. w \<le> 0)
         \<longrightarrow> normalize_filter exact xs = xs)"
proof (intro conjI allI impI)
  assume "is_zero fp (divisor fp ws)"
  then show "normalize_filter fp ws = ws"
    by (simp add: normalize_filter_divisor)
next
  assume "\<not> is_zero fp (divisor fp ws)"
  then show "normalize_filter fp ws = map (\<lambda>w. f_div fp w (divisor fp ws)) ws"
    by (simp add: normalize_filter_divisor)
next
  fix xs :: "real list"
  assume "\<forall>w \<in> set xs. w = 0"
  then show "normalize_filter exact xs = xs"
    by (rule normalize_all_zero_exact)
next
  fix xs :: "real list"
  assume "\<bar>sum_list xs\<bar> < 1 / 100000000 \<and> (\<forall>w \<in> set xs. w \<le> 0)"
  then show "normalize_filter exact xs = xs"
    by (intro normalize_no_positive_exact) simp_all
qed

text \<open>
  The theorem at the kernels \<open>[0, 0, 0]\<close> (divisor zero), \<open>[1, 1]\<close> (divisor 2) and
  \<open>[-1/1000000000]\<close> (essentially zero sum, no positive weight).
\<close>

theorem normalize_never_divides_by_zero_witness:
  "is_zero exact (divisor exact [0, 0, 0])
   \<and> normalize_filter exact [0, 0, 0] = [0, 0, 0]
   \<and> \<not> is_zero exact (divisor exact [1, 1])
   \<and> normalize_filter exact [1, 1] = [1 / 2, 1 / 2]
   \<and> normalize_filter exact [- 1 / 1000000000] = [- 1 / 1000000000]"
proof -
  have z: "is_zero exact (divisor exact [0, 0, 0])"
    by (simp add: divisor_def exact_simps)
  have d: "divisor exact [1, 1] = 2"
    by (simp add: divisor_def exact_simps)
  have nz: "\<not> is_zero exact (divisor exact [1, 1])"
    by (simp add: d is_zero_exact)
  have neg: "\<bar>sum_list [- 1 / 1000000000 :: real]\<bar> < 1 / 100000000
      \<and> (\<forall>w \<in> set [- 1 / 1000000000 :: real]. w \<le> 0)"
    by simp
  have "normalize_filter exact [0, 0, 0] = [0, 0, 0]"
    using normalize_never_divides_by_zero [of exact "[0, 0, 0]"] z by blast
  moreover have "normalize_filter exact [1, 1] = map (\<lambda>w. f_div exact w (divisor exact [1, 1])) [1, 1]"
    using normalize_never_divides_by_zero [of exact "[1, 1]"] nz by blast
  moreover have "normalize_filter exact [- 1 / 1000000000] = [- 1 / 1000000000]"
    using normalize_never_divides_by_zero [of exact "[1, 1]"] neg by blast
  ultimately show ?thesis
    using z nz d by (simp add: f_div_exact)
qed

section \<open>The shader synthesis\<close>

subsection \<open>The loop over the coefficients\<close>

lemma join_Cons: "join sep (t # ts) = t @ (if ts = [] then [] else sep @ join sep ts)"
  by (cases ts) simp_all

lemma convolution_loop_closed:
  assumes "pos + length rest \<le> unat width * unat height"
    and "pos + length rest \<le> 4294967296"
  shows "convolution_loop fp rest pos width height ss_def ss_convolution =
           Some (ss_def @ concat (map (\<lambda>(i, c). filter_decl fp i c) (enumerate pos rest)),
                 ss_convolution @ join ('' +'' @ endl)
                   (map (convolution_term fp (unat width) (unat height))
                      [pos..<pos + length rest]))"
  using assms
proof (induction rest arbitrary: pos ss_def ss_convolution)
  case Nil
  show ?case by simp
next
  case (Cons coeff rest)
  let ?i = "of_nat pos :: uint"
  let ?sep = "'' +'' @ endl"
  let ?tm = "convolution_term fp (unat width) (unat height)"
  have i: "unat ?i = pos"
    using Cons.prems(2) by (intro uint_of_nat_unat) simp
  have "unat ?i < unat width * unat height"
    using Cons.prems(1) i by simp
  then have off: "calc_offset fp ?i width height =
      Some (from_int fp (offset_x pos (unat width)),
            from_int fp (offset_y pos (unat width) (unat height)))"
    using calc_offset_eq [of ?i width height fp] i by simp
  let ?sd = "ss_def @ filter_decl fp pos coeff"
  let ?sc = "ss_convolution @ ?tm pos @ (if rest \<noteq> [] then ?sep else [])"
  have step: "convolution_loop fp (coeff # rest) pos width height ss_def ss_convolution =
      convolution_loop fp rest (Suc pos) width height ?sd ?sc"
    by (simp add: Let_def off i filter_decl_def convolution_term_def)
  have ih: "convolution_loop fp rest (Suc pos) width height ?sd ?sc =
      Some (?sd @ concat (map (\<lambda>(i, c). filter_decl fp i c) (enumerate (Suc pos) rest)),
            ?sc @ join ?sep (map ?tm [Suc pos..<Suc pos + length rest]))"
    using Cons.prems by (intro Cons.IH) simp_all
  have range: "[pos..<pos + length (coeff # rest)] = pos # [Suc pos..<Suc pos + length rest]"
    by (subst upt_conv_Cons) simp_all
  have "join ?sep (map ?tm [pos..<pos + length (coeff # rest)]) =
      ?tm pos @ (if rest \<noteq> [] then ?sep else [])
        @ join ?sep (map ?tm [Suc pos..<Suc pos + length rest])"
    unfolding range by (cases rest) (simp_all add: join_Cons)
  with step ih show ?case by simp
qed

lemma enumerate_nth: "enumerate 0 xs = map (\<lambda>i. (i, xs ! i)) [0..<length xs]"
  by (rule nth_equalityI) (simp_all add: nth_enumerate_eq)

lemma decls_enumerate:
  "concat (map (\<lambda>(i, c). filter_decl fp i c) (enumerate 0 array)) = filter_decls fp array"
  by (simp add: enumerate_nth filter_decls_def comp_def)

lemma size_check_bounds:
  fixes width height :: uint
  assumes "unat (width * height) = length array"
  shows "length array \<le> unat width * unat height" and "length array \<le> 4294967296"
proof -
  have "unat (width * height) = (unat width * unat height) mod 4294967296"
    by (simp add: unat_word_ariths)
  then show "length array \<le> unat width * unat height"
    using assms by (metis mod_less_eq_dividend)
  have "unat (width * height) < 4294967296"
    by (rule unat_uint_bound)
  then show "length array \<le> 4294967296"
    using assms by simp
qed

lemma source_text:
  "source_add ss_def
     (source_add_const fp ''TextureStepY'' y (source_add_const fp ''TextureStepX'' x tmpl))
   = ss_def @ ''const float TextureStepY = '' @ show_fixed fp 6 y @ '';'' @ endl
       @ ''const float TextureStepX = '' @ show_fixed fp 6 x @ '';'' @ endl @ tmpl"
  by (simp add: source_add_def source_add_const_def)

lemma create_closed:
  assumes "unat (width * height) = length array"
  shows "create_convolution_fragment_shader fp tmpl array width height =
           Some (source_replace ''$CONVOLUTION$''
                   (convolution_expr fp (length array) (unat width) (unat height))
                   (filter_decls fp array @ step_consts fp @ tmpl), [])"
proof -
  have "convolution_loop fp array 0 width height [] ''result = '' =
      Some ([] @ concat (map (\<lambda>(i, c). filter_decl fp i c) (enumerate 0 array)),
            ''result = '' @ join ('' +'' @ endl)
               (map (convolution_term fp (unat width) (unat height))
                  [0..<0 + length array]))"
    using size_check_bounds [OF assms] by (intro convolution_loop_closed) simp_all
  then have loop: "convolution_loop fp array 0 width height [] ''result = '' =
      Some (filter_decls fp array,
            ''result = '' @ join ('' +'' @ endl)
               (map (convolution_term fp (unat width) (unat height)) [0..<length array]))"
    by (simp add: decls_enumerate)
  show ?thesis
    unfolding create_convolution_fragment_shader_def Let_def loop
    using assms by (simp add: source_text source_str_def convolution_expr_def step_consts_def)
qed

lemma create_mismatch:
  assumes "unat (width * height) \<noteq> length array"
  shows "create_convolution_fragment_shader fp tmpl array width height =
           Some ('''', [FilterSizeMismatch])"
  using assms by (simp add: create_convolution_fragment_shader_def)

subsection \<open>Replacing the placeholder\<close>

lemma replace_dollar_free:
  assumes "dollar_free xs"
  shows "source_replace ''$CONVOLUTION$'' ins (xs @ ys) = xs @ source_replace ''$CONVOLUTION$'' ins ys"
  using assms
proof (induction xs)
  case Nil
  show ?case by simp
next
  case (Cons c xs)
  then have "c \<noteq> CHR ''$''" and "dollar_free xs"
    by (auto simp: dollar_free_def)
  with Cons.IH show ?case by simp
qed

lemma replace_token:
  "source_replace ''$CONVOLUTION$'' ins (''$CONVOLUTION$'' @ ys)
     = ins @ source_replace ''$CONVOLUTION$'' ins ys"
  by simp

lemma replace_nonempty:
  assumes "c \<noteq> CHR ''$''"
  shows "source_replace ''$CONVOLUTION$'' ins (c # cs) \<noteq> []"
  using assms by simp

lemma show_nat_digits: "set (show_nat n) \<subseteq> set ''0123456789''"
proof (induction n rule: show_nat.induct)
  case (1 n)
  have digit: "''0123456789'' ! k \<in> set ''0123456789''" if "k < 10" for k
    using that by (intro nth_mem) simp
  show ?case
  proof (cases "n < 10")
    case True
    then show ?thesis
      using digit [of n] by (subst show_nat.simps) simp
  next
    case False
    have "n mod 10 < 10" by simp
    then show ?thesis
      using False "1.IH" digit [of "n mod 10"] by (subst show_nat.simps) simp
  qed
qed

lemma dollar_free_show_nat: "dollar_free (show_nat n)"
  using show_nat_digits [of n] by (auto simp: dollar_free_def)

lemma dollar_free_append: "dollar_free (xs @ ys) \<longleftrightarrow> dollar_free xs \<and> dollar_free ys"
  by (auto simp: dollar_free_def)

lemma dollar_free_filter_decl:
  assumes "dollar_free (show_fixed fp 6 w)"
  shows "dollar_free (filter_decl fp i w)"
proof -
  have "dollar_free ''const float Filter''" "dollar_free '' = ''" "dollar_free ('';'' @ endl)"
    by (simp_all add: dollar_free_def endl_def)
  then show ?thesis
    using assms dollar_free_show_nat [of i]
    unfolding filter_decl_def by (simp only: dollar_free_append)
qed

lemma dollar_free_filter_decls:
  assumes "\<forall>w \<in> set array. dollar_free (show_fixed fp 6 w)"
  shows "dollar_free (filter_decls fp array)"
proof -
  have "dollar_free (filter_decl fp i (array ! i))" if "i < length array" for i
    using that assms by (intro dollar_free_filter_decl) simp
  then show ?thesis
    by (auto simp: filter_decls_def dollar_free_def)
qed

lemma create_contains:
  assumes "unat (width * height) = length array"
    and "tmpl = pre @ ''$CONVOLUTION$'' @ post"
    and "dollar_free pre"
    and "dollar_free (step_consts fp)"
    and "\<forall>w \<in> set array. dollar_free (show_fixed fp 6 w)"
  shows "create_convolution_fragment_shader fp tmpl array width height =
           Some (filter_decls fp array @ step_consts fp @ pre
                   @ convolution_expr fp (length array) (unat width) (unat height)
                   @ source_replace ''$CONVOLUTION$''
                       (convolution_expr fp (length array) (unat width) (unat height)) post, [])"
proof -
  let ?e = "convolution_expr fp (length array) (unat width) (unat height)"
  have free: "dollar_free (filter_decls fp array @ step_consts fp @ pre)"
    using assms(3,4) dollar_free_filter_decls [OF assms(5)] by (simp add: dollar_free_append)
  have "source_replace ''$CONVOLUTION$'' ?e (filter_decls fp array @ step_consts fp @ tmpl)
      = source_replace ''$CONVOLUTION$'' ?e
          ((filter_decls fp array @ step_consts fp @ pre) @ ''$CONVOLUTION$'' @ post)"
    by (simp add: assms(2))
  also have "\<dots> = (filter_decls fp array @ step_consts fp @ pre)
      @ source_replace ''$CONVOLUTION$'' ?e (''$CONVOLUTION$'' @ post)"
    using free by (rule replace_dollar_free)
  also have "\<dots> = (filter_decls fp array @ step_consts fp @ pre)
      @ ?e @ source_replace ''$CONVOLUTION$'' ?e post"
    by (simp only: replace_token)
  finally show ?thesis
    by (simp add: create_closed [OF assms(1)])
qed

lemma source_starts:
  "\<exists>rest. filter_decls fp array @ step_consts fp @ tmpl = CHR ''c'' # rest"
proof (cases array)
  case Nil
  then show ?thesis by (simp add: filter_decls_def step_consts_def)
next
  case (Cons w ws)
  have "[0..<length (w # ws)] = 0 # [Suc 0..<length (w # ws)]"
    by (subst upt_conv_Cons) simp_all
  then show ?thesis
    using Cons by (simp add: filter_decls_def filter_decl_def)
qed

lemma create_nonempty:
  assumes "unat (width * height) = length array"
  shows "\<exists>src. create_convolution_fragment_shader fp tmpl array width height = Some (src, [])
           \<and> src \<noteq> ''''"
proof -
  obtain rest where "filter_decls fp array @ step_consts fp @ tmpl = CHR ''c'' # rest"
    using source_starts by blast
  then show ?thesis
    by (simp add: create_closed [OF assms])
qed

lemma length_normalize_filter: "length (normalize_filter fp ws) = length ws"
  by (simp add: normalize_filter_divisor)

subsection \<open>The size check\<close>

text \<open>
  Claim C7. The size check compares the \<^verbatim>\<open>unsigned int\<close> product \<open>width * height\<close> with the
  length of the array. Whenever they differ, \<^verbatim>\<open>create_convolution_fragment_shader\<close> logs
  an error and returns the empty string, for the array as parsed and for the array as
  normalised alike; whenever they are equal it returns a non-empty source and logs
  nothing. Where the product of the dimensions is below \<open>2^32\<close>, the \<^verbatim>\<open>unsigned int\<close>
  product is the product of the dimensions.
\<close>

theorem size_check_decides:
  "(unat (width * height) \<noteq> length array \<longrightarrow>
      create_convolution_fragment_shader fp tmpl array width height
        = Some ('''', [FilterSizeMismatch])
      \<and> create_convolution_fragment_shader fp tmpl (normalize_filter fp array) width height
        = Some ('''', [FilterSizeMismatch]))
   \<and> (unat (width * height) = length array \<longrightarrow>
      (\<exists>src. create_convolution_fragment_shader fp tmpl array width height = Some (src, [])
         \<and> src \<noteq> '''')
      \<and> (\<exists>src. create_convolution_fragment_shader fp tmpl (normalize_filter fp array)
                  width height = Some (src, [])
         \<and> src \<noteq> ''''))
   \<and> (unat width * unat height < 4294967296 \<longrightarrow>
      unat (width * height) = unat width * unat height)"
proof (intro conjI impI)
  assume ne: "unat (width * height) \<noteq> length array"
  then show "create_convolution_fragment_shader fp tmpl array width height
      = Some ('''', [FilterSizeMismatch])"
    by (rule create_mismatch)
  from ne have "unat (width * height) \<noteq> length (normalize_filter fp array)"
    by (simp add: length_normalize_filter)
  then show "create_convolution_fragment_shader fp tmpl (normalize_filter fp array) width height
      = Some ('''', [FilterSizeMismatch])"
    by (rule create_mismatch)
next
  assume eq: "unat (width * height) = length array"
  then show "\<exists>src. create_convolution_fragment_shader fp tmpl array width height = Some (src, [])
      \<and> src \<noteq> ''''"
    by (rule create_nonempty)
  from eq have "unat (width * height) = length (normalize_filter fp array)"
    by (simp add: length_normalize_filter)
  then show "\<exists>src. create_convolution_fragment_shader fp tmpl (normalize_filter fp array)
      width height = Some (src, []) \<and> src \<noteq> ''''"
    by (rule create_nonempty)
next
  assume "unat width * unat height < 4294967296"
  then show "unat (width * height) = unat width * unat height"
    by (simp add: unat_word_ariths)
qed

text \<open>
  The theorem at a 2 by 2 kernel with two weights (rejected) and at a 1 by 1 kernel
  with one weight (accepted).
\<close>

theorem size_check_decides_witness:
  "unat (2 * 2 :: uint) \<noteq> length [1, 2 :: real]
   \<and> create_convolution_fragment_shader exact ''$CONVOLUTION$'' [1, 2] 2 2
       = Some ('''', [FilterSizeMismatch])
   \<and> unat (1 * 1 :: uint) = length [5 :: real]
   \<and> (\<exists>src. create_convolution_fragment_shader exact ''$CONVOLUTION$'' [5] 1 1 = Some (src, [])
         \<and> src \<noteq> '''')
   \<and> unat (1 :: uint) * unat (1 :: uint) < 4294967296"
proof -
  have ne: "unat (2 * 2 :: uint) \<noteq> length [1, 2 :: real]" by simp
  have eq: "unat (1 * 1 :: uint) = length [5 :: real]" by simp
  have "create_convolution_fragment_shader exact ''$CONVOLUTION$'' [1, 2] 2 2
       = Some ('''', [FilterSizeMismatch])"
    using size_check_decides [of 2 2 "[1, 2]" exact "''$CONVOLUTION$''"] ne by blast
  moreover have "\<exists>src. create_convolution_fragment_shader exact ''$CONVOLUTION$'' [5] 1 1
      = Some (src, []) \<and> src \<noteq> ''''"
    using size_check_decides [of 1 1 "[5]" exact "''$CONVOLUTION$''"] eq by blast
  ultimately show ?thesis using ne eq by simp
qed

text \<open>
  Claim C10. For the empty input string \<^verbatim>\<open>parse_matrix\<close> does not fail: it returns
  success with an empty weight vector, height 0 and width \<^verbatim>\<open>UINT_MAX\<close>, and logs nothing.
  \<^verbatim>\<open>normalize\<close> leaves the empty vector empty. The size check then passes, because
  \<^verbatim>\<open>UINT_MAX * 0\<close> is 0, the length of the empty array, and the synthesis returns a
  non-empty source whose accumulation expression has no term. No stage rejects the
  empty matrix option.
\<close>

theorem empty_matrix_accepted:
  "parse_matrix fp '''' [] width height = (True, [], UINT_MAX, 0, [])
   \<and> normalize_filter fp [] = []
   \<and> unat (UINT_MAX * 0) = length ([] :: 'f list)
   \<and> create_convolution_fragment_shader fp tmpl [] UINT_MAX 0
       = Some (source_replace ''$CONVOLUTION$'' (''result = ;'' @ endl) (step_consts fp @ tmpl), [])
   \<and> (\<exists>src. create_convolution_fragment_shader fp tmpl [] UINT_MAX 0 = Some (src, [])
         \<and> src \<noteq> '''')"
  for fp :: "('f, 'd) cxx_float"
proof -
  have sz: "unat (UINT_MAX * 0) = length ([] :: 'f list)" by simp
  have "parse_matrix fp '''' [] width height = (True, [], UINT_MAX, 0, [])"
    by (simp add: parse_matrix_def split_eval)
  moreover have "normalize_filter fp [] = []"
    by (simp add: normalize_filter_divisor)
  moreover have "create_convolution_fragment_shader fp tmpl [] UINT_MAX 0
       = Some (source_replace ''$CONVOLUTION$'' (''result = ;'' @ endl) (step_consts fp @ tmpl), [])"
    using create_closed [OF sz, of fp tmpl]
    by (simp add: convolution_expr_def filter_decls_def)
  moreover have "\<exists>src. create_convolution_fragment_shader fp tmpl [] UINT_MAX 0 = Some (src, [])
         \<and> src \<noteq> ''''"
    using sz by (rule create_nonempty)
  ultimately show ?thesis using sz by simp
qed

subsection \<open>The text of the source\<close>

lemma show_nat_0: "show_nat 0 = ''0''"
  by (simp add: show_nat.simps)

lemma show_nat_1: "show_nat (Suc 0) = ''1''"
  by (simp add: show_nat.simps)

lemma replicate_numeral: "replicate (numeral k) x = x # replicate (pred_numeral k) x"
  by (simp add: numeral_eq_Suc)

lemmas fixed_eval =
  fixed_decimal_def round_half_even_def show_nat.simps replicate_numeral Let_def

lemma fixed_decimal_6_5: "fixed_decimal 6 5 = ''5.000000''"
  by (simp add: fixed_eval)

lemma fixed_decimal_6_1: "fixed_decimal 6 1 = ''1.000000''"
  by (simp add: fixed_eval)

lemma fixed_decimal_6_2: "fixed_decimal 6 2 = ''2.000000''"
  by (simp add: fixed_eval)

lemma fixed_decimal_step_x: "fixed_decimal 6 (1 / 800) = ''0.001250''"
  by (simp add: fixed_eval)

lemma fixed_decimal_step_y: "fixed_decimal 6 (1 / 600) = ''0.001667''"
  by (simp add: fixed_eval)

lemma fixed_decimal_1_0: "fixed_decimal (Suc 0) 0 = ''0.0''"
  by (simp add: fixed_eval)

lemma fixed_decimal_1_1: "fixed_decimal (Suc 0) 1 = ''1.0''"
  by (simp add: fixed_eval)

lemmas fixed_decimal_values =
  fixed_decimal_6_5 fixed_decimal_6_1 fixed_decimal_6_2 fixed_decimal_step_x
  fixed_decimal_step_y fixed_decimal_1_0 fixed_decimal_1_1

lemma show_fixed_exact: "show_fixed exact = fixed_decimal"
  by (simp add: exact_def)

lemma from_int_exact: "from_int exact = of_int"
  by (simp add: exact_def)

lemma step_consts_exact:
  "step_consts exact =
     ''const float TextureStepY = 0.001667;'' @ endl
       @ ''const float TextureStepX = 0.001250;'' @ endl"
  by (simp add: step_consts_def show_fixed_exact from_int_exact f_div_exact fixed_decimal_values)

lemma replace_brace: "source_replace ''$CONVOLUTION$'' ins ''}'' = ''}''"
  by simp

lemma filter_decls_single:
  "filter_decls fp [c] = ''const float Filter0 = '' @ show_fixed fp 6 c @ '';'' @ endl"
  by (simp add: filter_decls_def filter_decl_def show_nat_0)

lemma convolution_expr_single:
  "convolution_expr fp (Suc 0) (Suc 0) (Suc 0) =
     ''result = texture2D(Texture0, TextureCoord + vec2(''
       @ show_fixed fp 1 (from_int fp 0) @ '' * TextureStepX, ''
       @ show_fixed fp 1 (from_int fp 0) @ '' * TextureStepY)) * Filter0;'' @ endl"
  by (simp add: convolution_expr_def convolution_term_def offset_x_def offset_y_def
      show_nat_0)

lemma dollar_free_exact_5:
  "dollar_free ''{''"
  "dollar_free (step_consts exact)"
  "\<forall>w \<in> set [5 :: real]. dollar_free (show_fixed exact 6 w)"
  by (simp_all add: dollar_free_def step_consts_exact show_fixed_exact fixed_decimal_values
      endl_def)

lemma create_exact_5:
  "create_convolution_fragment_shader exact ''{$CONVOLUTION$}'' [5] 1 1 =
     Some (''const float Filter0 = 5.000000;'' @ endl
           @ ''const float TextureStepY = 0.001667;'' @ endl
           @ ''const float TextureStepX = 0.001250;'' @ endl
           @ ''{result = texture2D(Texture0, TextureCoord + ''
           @ ''vec2(0.0 * TextureStepX, 0.0 * TextureStepY)) * Filter0;'' @ endl
           @ ''}'', [])"
proof -
  have sz: "unat (1 * 1 :: uint) = length [5 :: real]" by simp
  have "create_convolution_fragment_shader exact (''{'' @ ''$CONVOLUTION$'' @ ''}'') [5] 1 1 =
      Some (filter_decls exact [5] @ step_consts exact @ ''{''
              @ convolution_expr exact (length [5 :: real]) (unat (1 :: uint)) (unat (1 :: uint))
              @ source_replace ''$CONVOLUTION$''
                  (convolution_expr exact (length [5 :: real]) (unat (1 :: uint))
                     (unat (1 :: uint))) ''}'', [])"
    using sz refl dollar_free_exact_5 by (rule create_contains)
  then show ?thesis
    by (simp add: filter_decls_single convolution_expr_single step_consts_exact
        show_fixed_exact from_int_exact fixed_decimal_values endl_def)
qed

text \<open>
  Claim C9. For every kernel that passes the size check, the synthesized source is the
  text made of the declarations of all coefficients in row-major order, each
  \<^verbatim>\<open>const float Filter<i> = <weight>;\<close> in fixed notation, of the two step constants and
  of the template, in which the placeholder is replaced by the accumulation
  expression: \<^verbatim>\<open>result = \<close>, the terms of all coefficients joined with \<^verbatim>\<open> +\<close>, each sampling
  the texture at the coordinate offset by \<^verbatim>\<open>(offset.x * TextureStepX, offset.y * TextureStepY)\<close>
  and multiplied by \<^verbatim>\<open>Filter<i>\<close>, and a final \<^verbatim>\<open>;\<close>. Where the template holds the
  placeholder and no printed number holds a \<^verbatim>\<open>$\<close>, the source contains the declarations
  and the expression as they are. A 1 by 1 kernel has one declaration and one term,
  with offset \<open>(0, 0)\<close>; for the kernel \<open>[5.0]\<close> the constant is printed as \<^verbatim>\<open>5.000000\<close>.
\<close>

theorem shader_source_parts:
  assumes "unat (width * height) = length array"
  shows "create_convolution_fragment_shader fp tmpl array width height =
           Some (source_replace ''$CONVOLUTION$''
                   (convolution_expr fp (length array) (unat width) (unat height))
                   (filter_decls fp array @ step_consts fp @ tmpl), [])
         \<and> (dollar_free pre \<and> dollar_free (step_consts fp)
              \<and> (\<forall>w \<in> set array. dollar_free (show_fixed fp 6 w)) \<longrightarrow>
            create_convolution_fragment_shader fp (pre @ ''$CONVOLUTION$'' @ post) array
                width height =
              Some (filter_decls fp array @ step_consts fp @ pre
                      @ convolution_expr fp (length array) (unat width) (unat height)
                      @ source_replace ''$CONVOLUTION$''
                          (convolution_expr fp (length array) (unat width) (unat height))
                          post, []))
         \<and> filter_decls fp [c] = ''const float Filter0 = '' @ show_fixed fp 6 c @ '';'' @ endl
         \<and> convolution_expr fp 1 1 1 =
             ''result = texture2D(Texture0, TextureCoord + vec2(''
               @ show_fixed fp 1 (from_int fp 0) @ '' * TextureStepX, ''
               @ show_fixed fp 1 (from_int fp 0) @ '' * TextureStepY)) * Filter0;'' @ endl
         \<and> create_convolution_fragment_shader exact ''{$CONVOLUTION$}'' [5] 1 1 =
             Some (''const float Filter0 = 5.000000;'' @ endl
                   @ ''const float TextureStepY = 0.001667;'' @ endl
                   @ ''const float TextureStepX = 0.001250;'' @ endl
                   @ ''{result = texture2D(Texture0, TextureCoord + ''
                   @ ''vec2(0.0 * TextureStepX, 0.0 * TextureStepY)) * Filter0;'' @ endl
                   @ ''}'', [])"
proof (intro conjI impI)
  show "create_convolution_fragment_shader fp tmpl array width height =
           Some (source_replace ''$CONVOLUTION$''
                   (convolution_expr fp (length array) (unat width) (unat height))
                   (filter_decls fp array @ step_consts fp @ tmpl), [])"
    using assms by (rule create_closed)
next
  assume "dollar_free pre \<and> dollar_free (step_consts fp)
      \<and> (\<forall>w \<in> set array. dollar_free (show_fixed fp 6 w))"
  then show "create_convolution_fragment_shader fp (pre @ ''$CONVOLUTION$'' @ post) array
                width height =
              Some (filter_decls fp array @ step_consts fp @ pre
                      @ convolution_expr fp (length array) (unat width) (unat height)
                      @ source_replace ''$CONVOLUTION$''
                          (convolution_expr fp (length array) (unat width) (unat height))
                          post, [])"
    using assms by (intro create_contains) simp_all
next
  show "filter_decls fp [c] = ''const float Filter0 = '' @ show_fixed fp 6 c @ '';'' @ endl"
    by (rule filter_decls_single)
  show "convolution_expr fp 1 1 1 =
             ''result = texture2D(Texture0, TextureCoord + vec2(''
               @ show_fixed fp 1 (from_int fp 0) @ '' * TextureStepX, ''
               @ show_fixed fp 1 (from_int fp 0) @ '' * TextureStepY)) * Filter0;'' @ endl"
    using convolution_expr_single [of fp] by simp
  show "create_convolution_fragment_shader exact ''{$CONVOLUTION$}'' [5] 1 1 =
             Some (''const float Filter0 = 5.000000;'' @ endl
                   @ ''const float TextureStepY = 0.001667;'' @ endl
                   @ ''const float TextureStepX = 0.001250;'' @ endl
                   @ ''{result = texture2D(Texture0, TextureCoord + ''
                   @ ''vec2(0.0 * TextureStepX, 0.0 * TextureStepY)) * Filter0;'' @ endl
                   @ ''}'', [])"
    by (rule create_exact_5)
qed

text \<open>The theorem at the kernel \<open>[1, 2]\<close> of width 2 and height 1.\<close>

lemma upt_0_2: "[0..<2] = [0, Suc 0]"
  by (simp add: numeral_2_eq_2 upt_conv_Cons)

lemma filter_decls_exact_1_2:
  "filter_decls exact [1, 2] =
     ''const float Filter0 = 1.000000;'' @ endl @ ''const float Filter1 = 2.000000;'' @ endl"
  by (simp add: filter_decls_def filter_decl_def upt_0_2 show_nat_0 show_nat_1
      show_fixed_exact fixed_decimal_values)

lemma convolution_expr_exact_2_1:
  "convolution_expr exact (Suc (Suc 0)) 2 (Suc 0) =
     ''result = texture2D(Texture0, TextureCoord + ''
       @ ''vec2(0.0 * TextureStepX, 0.0 * TextureStepY)) * Filter0 +'' @ endl
       @ ''texture2D(Texture0, TextureCoord + ''
       @ ''vec2(1.0 * TextureStepX, 0.0 * TextureStepY)) * Filter1;'' @ endl"
  by (simp add: convolution_expr_def convolution_term_def offset_x_def offset_y_def upt_0_2
      show_nat_0 show_nat_1 show_fixed_exact from_int_exact fixed_decimal_values)

theorem shader_source_parts_witness:
  "unat (2 * 1 :: uint) = length [1, 2 :: real]
   \<and> dollar_free ''{'' \<and> dollar_free (step_consts exact)
   \<and> dollar_free (show_fixed exact 6 1) \<and> dollar_free (show_fixed exact 6 2)
   \<and> create_convolution_fragment_shader exact ''{$CONVOLUTION$}'' [1, 2] 2 1 =
       Some (''const float Filter0 = 1.000000;'' @ endl
             @ ''const float Filter1 = 2.000000;'' @ endl
             @ ''const float TextureStepY = 0.001667;'' @ endl
             @ ''const float TextureStepX = 0.001250;'' @ endl
             @ ''{result = texture2D(Texture0, TextureCoord + ''
             @ ''vec2(0.0 * TextureStepX, 0.0 * TextureStepY)) * Filter0 +'' @ endl
             @ ''texture2D(Texture0, TextureCoord + ''
             @ ''vec2(1.0 * TextureStepX, 0.0 * TextureStepY)) * Filter1;'' @ endl
             @ ''}'', [])"
proof -
  have sz: "unat (2 * 1 :: uint) = length [1, 2 :: real]" by simp
  have free: "dollar_free ''{''" "dollar_free (step_consts exact)"
    "dollar_free (show_fixed exact 6 1)" "dollar_free (show_fixed exact 6 2)"
    by (simp_all add: dollar_free_def step_consts_exact show_fixed_exact fixed_decimal_values
        endl_def)
  then have hyp: "dollar_free ''{'' \<and> dollar_free (step_consts exact)
      \<and> (\<forall>w \<in> set [1, 2 :: real]. dollar_free (show_fixed exact 6 w))"
    by simp
  have "create_convolution_fragment_shader exact (''{'' @ ''$CONVOLUTION$'' @ ''}'') [1, 2] 2 1 =
      Some (filter_decls exact [1, 2] @ step_consts exact @ ''{''
              @ convolution_expr exact (length [1, 2 :: real]) (unat (2 :: uint))
                  (unat (1 :: uint))
              @ source_replace ''$CONVOLUTION$''
                  (convolution_expr exact (length [1, 2 :: real]) (unat (2 :: uint))
                     (unat (1 :: uint))) ''}'', [])"
    using shader_source_parts [OF sz, of exact _ "''{''" "''}''"] hyp by blast
  then show ?thesis
    using sz free
    by (simp add: filter_decls_exact_1_2 convolution_expr_exact_2_1 step_consts_exact endl_def)
qed

end
